theory Spec2Isabelle
  imports Complex_Main
begin

section \<open>JavaScript numbers\<close>

text \<open>
  The component computes with JavaScript numbers. A number is a finite value, carried
  here as the real it denotes, or one of the three special values of the language. The
  sign of zero is not modelled.

  An operator of the language computes the exact result of its finite operands and
  rounds it to a number. The rounding is the parameter \<open>fl\<close> of every arithmetic
  operation below: \<open>binary64\<close> is the rounding of the runtime, \<open>exact\<close> is arithmetic
  without rounding. The rules for the special values do not depend on it.
\<close>

datatype number = Fin real | Infinity | NegInfinity | NaN

type_synonym rounding = "real \<Rightarrow> number"

definition exact :: rounding where
  "exact x = Fin x"

text \<open>
  Rounding to the nearest binary64 value, ties to the even significand. \<open>binade x\<close> is
  the exponent of the power of two at or below \<open>\<bar>x\<bar>\<close>, and not below the exponent of
  the smallest normal number; the values of that binade are the multiples of
  \<open>2 powi (binade x - 52)\<close>. A result that rounds to \<open>2 ^ 1024\<close> or beyond is an
  infinity.
\<close>

definition roundTiesToEven :: "real \<Rightarrow> int" where
  "roundTiesToEven x =
     (let n = \<lfloor>x\<rfloor>; r = x - of_int n
      in if r < 1 / 2 then n else if 1 / 2 < r then n + 1 else if even n then n else n + 1)"

definition binade :: "real \<Rightarrow> int" where
  "binade x = Max (insert (- 1022) (Set.filter (\<lambda>k. 2 powi k \<le> \<bar>x\<bar>) {- 1022..1023}))"

definition binary64 :: rounding where
  "binary64 x =
     (let e = binade x - 52;
          y = of_int (roundTiesToEven (x / 2 powi e)) * 2 powi e
      in if 2 ^ 1024 \<le> y then Infinity
         else if y \<le> - (2 ^ 1024) then NegInfinity
         else Fin y)"

text \<open>The binary operator \<^verbatim>\<open>+\<close> on two numbers.\<close>

fun js_add :: "rounding \<Rightarrow> number \<Rightarrow> number \<Rightarrow> number" where
  "js_add fl NaN _ = NaN"
| "js_add fl _ NaN = NaN"
| "js_add fl (Fin a) (Fin b) = fl (a + b)"
| "js_add fl (Fin _) Infinity = Infinity"
| "js_add fl (Fin _) NegInfinity = NegInfinity"
| "js_add fl Infinity (Fin _) = Infinity"
| "js_add fl Infinity Infinity = Infinity"
| "js_add fl Infinity NegInfinity = NaN"
| "js_add fl NegInfinity (Fin _) = NegInfinity"
| "js_add fl NegInfinity Infinity = NaN"
| "js_add fl NegInfinity NegInfinity = NegInfinity"

text \<open>Unary minus, and the binary operator \<^verbatim>\<open>-\<close>, which adds the negated operand.\<close>

fun js_neg :: "number \<Rightarrow> number" where
  "js_neg NaN = NaN"
| "js_neg (Fin a) = Fin (- a)"
| "js_neg Infinity = NegInfinity"
| "js_neg NegInfinity = Infinity"

definition js_sub :: "rounding \<Rightarrow> number \<Rightarrow> number \<Rightarrow> number" where
  "js_sub fl a b = js_add fl a (js_neg b)"

text \<open>
  The operator \<^verbatim>\<open>/\<close>. A finite nonzero dividend over zero gives an infinity, zero
  over zero gives \<open>NaN\<close>; the zero divisor counts as positive zero.
\<close>

fun js_div :: "rounding \<Rightarrow> number \<Rightarrow> number \<Rightarrow> number" where
  "js_div fl NaN _ = NaN"
| "js_div fl _ NaN = NaN"
| "js_div fl (Fin a) (Fin b) =
     (if b = 0 then (if a = 0 then NaN else if 0 < a then Infinity else NegInfinity)
      else fl (a / b))"
| "js_div fl (Fin _) Infinity = Fin 0"
| "js_div fl (Fin _) NegInfinity = Fin 0"
| "js_div fl Infinity (Fin b) = (if b < 0 then NegInfinity else Infinity)"
| "js_div fl NegInfinity (Fin b) = (if b < 0 then Infinity else NegInfinity)"
| "js_div fl Infinity Infinity = NaN"
| "js_div fl Infinity NegInfinity = NaN"
| "js_div fl NegInfinity Infinity = NaN"
| "js_div fl NegInfinity NegInfinity = NaN"

text \<open>The comparison \<^verbatim>\<open><\<close>: false as soon as an operand is \<open>NaN\<close>.\<close>

fun js_lt :: "number \<Rightarrow> number \<Rightarrow> bool" where
  "js_lt NaN _ = False"
| "js_lt _ NaN = False"
| "js_lt (Fin a) (Fin b) = (a < b)"
| "js_lt (Fin _) Infinity = True"
| "js_lt (Fin _) NegInfinity = False"
| "js_lt Infinity _ = False"
| "js_lt NegInfinity NegInfinity = False"
| "js_lt NegInfinity _ = True"

text \<open>The comparison \<^verbatim>\<open><=\<close>, likewise false on \<open>NaN\<close>.\<close>

definition js_le :: "number \<Rightarrow> number \<Rightarrow> bool" where
  "js_le a b = (a \<noteq> NaN \<and> b \<noteq> NaN \<and> \<not> js_lt b a)"

text \<open>
  \<^verbatim>\<open>Math.min\<close> and \<^verbatim>\<open>Math.max\<close> of an argument list: the running
  extreme starts at the opposite infinity, and a \<open>NaN\<close> argument makes the result
  \<open>NaN\<close>.
\<close>

fun min_from :: "number \<Rightarrow> number list \<Rightarrow> number" where
  "min_from lowest [] = lowest"
| "min_from lowest (x # xs) =
     (if x = NaN then NaN else min_from (if js_lt x lowest then x else lowest) xs)"

definition Math_min :: "number list \<Rightarrow> number" where
  "Math_min xs = min_from Infinity xs"

fun max_from :: "number \<Rightarrow> number list \<Rightarrow> number" where
  "max_from highest [] = highest"
| "max_from highest (x # xs) =
     (if x = NaN then NaN else max_from (if js_lt highest x then x else highest) xs)"

definition Math_max :: "number list \<Rightarrow> number" where
  "Math_max xs = max_from NegInfinity xs"

text \<open>
  \<^verbatim>\<open>Math.pow\<close> with an exponent that is a natural number literal (the component
  only squares), and \<^verbatim>\<open>Math.sqrt\<close>. The language leaves the accuracy of the two
  to the runtime; each is taken as the rounded exact result.
\<close>

fun Math_pow :: "rounding \<Rightarrow> number \<Rightarrow> nat \<Rightarrow> number" where
  "Math_pow fl b 0 = Fin 1"
| "Math_pow fl NaN (Suc n) = NaN"
| "Math_pow fl (Fin a) (Suc n) = fl (a ^ Suc n)"
| "Math_pow fl Infinity (Suc n) = Infinity"
| "Math_pow fl NegInfinity (Suc n) = (if even (Suc n) then Infinity else NegInfinity)"

fun Math_sqrt :: "rounding \<Rightarrow> number \<Rightarrow> number" where
  "Math_sqrt fl NaN = NaN"
| "Math_sqrt fl (Fin a) = (if a < 0 then NaN else fl (sqrt a))"
| "Math_sqrt fl Infinity = Infinity"
| "Math_sqrt fl NegInfinity = NaN"

text \<open>\<^verbatim>\<open>Number.isFinite\<close>, and the real a finite number denotes.\<close>

fun isFinite :: "number \<Rightarrow> bool" where
  "isFinite (Fin _) = True"
| "isFinite _ = False"

fun realOf :: "number \<Rightarrow> real" where
  "realOf (Fin a) = a"
| "realOf _ = 0"

text \<open>
  An array read \<^verbatim>\<open>xs[i]\<close> gives \<^verbatim>\<open>undefined\<close> outside the array; it does not
  raise. \<open>None\<close> stands for \<^verbatim>\<open>undefined\<close>, which arithmetic turns into \<open>NaN\<close>.
\<close>

definition arrayGet :: "'a list \<Rightarrow> nat \<Rightarrow> 'a option" where
  "arrayGet xs i = (if i < length xs then Some (xs ! i) else None)"

fun toNumber :: "number option \<Rightarrow> number" where
  "toNumber None = NaN"
| "toNumber (Some x) = x"

text \<open>The decimal digits of a natural number, as string conversion writes an index.\<close>

fun toString :: "nat \<Rightarrow> string" where
  "toString n =
     (if n < 10 then [char_of (48 + n)]
      else toString (n div 10) @ [char_of (48 + n mod 10)])"

declare toString.simps [simp del]

section \<open>The data\<close>

text \<open>
  Modelled from the spec: the type \<^verbatim>\<open>InputData\<close> is imported from
  \<^verbatim>\<open>types/neural-network\<close>, which is not among the sources; the spec gives it as a
  label and a sequence of numbers.
\<close>

record InputData =
  label :: string
  values' :: "number list"

record Stats =
  avg :: number
  min' :: number
  max' :: number
  stdDev :: number

datatype error = TypeError | RangeError

text \<open>
  A spread call \<^verbatim>\<open>f(...xs)\<close> passes one argument for each element of the array. An
  engine accepts only so many arguments in a call and raises a \<^verbatim>\<open>RangeError\<close>
  beyond. The bound belongs to the engine, not to the language: it is the parameter
  \<open>maxArgs\<close> of the model. Every engine accepts a call with one argument, so a bound
  below one counts as one.
\<close>

definition spread :: "nat \<Rightarrow> 'a list \<Rightarrow> error + 'a list" where
  "spread maxArgs xs = (if length xs \<le> max 1 maxArgs then Inr xs else Inl RangeError)"

text \<open>
  \<^verbatim>\<open>xs.map(f)\<close> with a callback that may raise: the first exception ends the loop
  and leaves the call.
\<close>

fun mapE :: "('a \<Rightarrow> error + 'b) \<Rightarrow> 'a list \<Rightarrow> error + 'b list" where
  "mapE f [] = Inr []"
| "mapE f (x # xs) =
     (case f x of
        Inl e \<Rightarrow> Inl e
      | Inr y \<Rightarrow> (case mapE f xs of Inl e \<Rightarrow> Inl e | Inr ys \<Rightarrow> Inr (y # ys)))"

section \<open>calculateStats\<close>

text \<open>
  The callback of the \<^verbatim>\<open>map\<close> over the first record's values: the statistics of
  the dimension \<open>index\<close>, over the column read from every record at that index. The
  sums go through \<^verbatim>\<open>reduce\<close>; the minimum and the maximum are spread calls
  \<^verbatim>\<open>Math.min(...values)\<close> and \<^verbatim>\<open>Math.max(...values)\<close>, with one argument for
  each record.
\<close>

definition column :: "InputData list \<Rightarrow> nat \<Rightarrow> number option list" where
  "column data index = map (\<lambda>d. arrayGet (values' d) index) data"

definition statsOf :: "nat \<Rightarrow> rounding \<Rightarrow> number option list \<Rightarrow> error + Stats" where
  "statsOf maxArgs fl vals =
     (let average = js_div fl (foldl (\<lambda>a b. js_add fl a (toNumber b)) (Fin 0) vals)
                             (Fin (real (length vals)))
      in case spread maxArgs vals of
           Inl e \<Rightarrow> Inl e
         | Inr lows \<Rightarrow>
             (let lo = Math_min (map toNumber lows)
              in case spread maxArgs vals of
                   Inl e \<Rightarrow> Inl e
                 | Inr highs \<Rightarrow>
                     (let hi = Math_max (map toNumber highs);
                          dev = Math_sqrt fl
                                  (js_div fl
                                     (foldl (\<lambda>sum val. js_add fl sum
                                               (Math_pow fl (js_sub fl (toNumber val) average) 2))
                                            (Fin 0) vals)
                                     (Fin (real (length vals))))
                      in Inr \<lparr>avg = average, min' = lo, max' = hi, stdDev = dev\<rparr>)))"

text \<open>
  \<^verbatim>\<open>data[0]?.values.map(...)\<close>: \<^verbatim>\<open>undefined\<close> (here \<open>None\<close>) when there is no
  first record, otherwise one entry for each index of the first record's values, unless
  the callback raises.
\<close>

definition calculateStats ::
  "nat \<Rightarrow> rounding \<Rightarrow> InputData list \<Rightarrow> error + Stats list option" where
  "calculateStats maxArgs fl data =
     (case data of
        [] \<Rightarrow> Inr None
      | d0 # _ \<Rightarrow>
          (case mapE (\<lambda>index. statsOf maxArgs fl (column data index))
                     [0..<length (values' d0)] of
             Inl e \<Rightarrow> Inl e
           | Inr stats \<Rightarrow> Inr (Some stats)))"

section \<open>generateSummary\<close>

text \<open>
  \<^verbatim>\<open>toFixed\<close> is the number formatting of the runtime; the component only places its
  output in the text, so it is a parameter \<open>toFixed\<close> of the model (the number, then the
  count of decimals).
\<close>

type_synonym formatter = "number \<Rightarrow> nat \<Rightarrow> string"

text \<open>The line break and indentation inside the template literal.\<close>

definition indent :: string where
  "indent = CHR 0x0A # ''      ''"

definition lowVariationText :: string where
  "lowVariationText =
     ''This means the numbers are close to each other, like classmates in a group photo.''"

definition spreadOutText :: string where
  "spreadOutText =
     ''This means the numbers are spread out, like students running across a playground.''"

text \<open>The template literal up to the variation sentence, and after it.\<close>

definition summaryHead :: "formatter \<Rightarrow> Stats \<Rightarrow> nat \<Rightarrow> string" where
  \<open>summaryHead toFixed stat index =
     indent @ ''Input '' @ toString (index + 1) @ '':'' @
     indent @ ''- The average is like the "middle value" ('' @ toFixed (avg stat) 2 @
       ''), helping us see what most numbers look like.'' @
     indent @ ''- The standard deviation is '' @ toFixed (stdDev stat) 2 @ ''. ''\<close>

definition summaryTail :: "formatter \<Rightarrow> Stats \<Rightarrow> string" where
  "summaryTail toFixed stat =
     indent @ ''- The range ('' @ toFixed (min' stat) 2 @ '' to '' @ toFixed (max' stat) 2 @
       '') shows the smallest and largest values.'' @ indent"

definition summaryText :: "formatter \<Rightarrow> Stats \<Rightarrow> nat \<Rightarrow> string" where
  "summaryText toFixed stat index =
     (let isLowVariation = js_lt (stdDev stat) (Fin 1)
      in summaryHead toFixed stat index @
         (if isLowVariation then lowVariationText else spreadOutText) @
         summaryTail toFixed stat)"

text \<open>
  \<^verbatim>\<open>stats.map(...)\<close> has no guard: on \<^verbatim>\<open>undefined\<close> the property read raises a
  \<^verbatim>\<open>TypeError\<close>.
\<close>

definition generateSummary :: "formatter \<Rightarrow> Stats list option \<Rightarrow> error + string list" where
  "generateSummary toFixed stats =
     (case stats of
        None \<Rightarrow> Inl TypeError
      | Some st \<Rightarrow> Inr (map (\<lambda>(index, stat). summaryText toFixed stat index) (enumerate 0 st)))"

section \<open>chartData\<close>

record ChartDataset =
  label' :: string
  data' :: "number option list"
  borderColor :: string
  backgroundColor :: string
  borderWidth :: number
  fill :: bool
  tension :: number
  pointRadius :: number
  pointHoverRadius :: number
  pointBackgroundColor :: string
  pointBorderColor :: string
  pointBorderWidth :: number
  pointHoverBackgroundColor :: string
  pointHoverBorderColor :: string
  pointHoverBorderWidth :: number

record ChartData =
  labels :: "string list"
  datasets :: "ChartDataset list"

definition hsl :: "nat \<Rightarrow> string" where
  "hsl valueIndex = ''hsl('' @ toString (valueIndex * 60) @ '', 70%, 50%)''"

definition series :: "InputData list \<Rightarrow> nat \<Rightarrow> ChartDataset" where
  "series data valueIndex =
     \<lparr>label' = ''Input '' @ toString (valueIndex + 1),
      data' = map (\<lambda>d. arrayGet (values' d) valueIndex) data,
      borderColor = hsl valueIndex,
      backgroundColor = ''hsla('' @ toString (valueIndex * 60) @ '', 70%, 50%, 0.1)'',
      borderWidth = Fin 2,
      fill = True,
      tension = binary64 (4 / 10),
      pointRadius = Fin 6,
      pointHoverRadius = Fin 8,
      pointBackgroundColor = hsl valueIndex,
      pointBorderColor = ''#fff'',
      pointBorderWidth = Fin 2,
      pointHoverBackgroundColor = ''#fff'',
      pointHoverBorderColor = hsl valueIndex,
      pointHoverBorderWidth = Fin 2\<rparr>"

text \<open>
  The numeric settings of a series are literals; \<^verbatim>\<open>0.4\<close> denotes the binary64 value
  nearest to it.

  \<^verbatim>\<open>data[0]?.values.map(...) || []\<close>: without a first record the left operand is
  \<^verbatim>\<open>undefined\<close> and the empty array is taken; an array, even an empty one, is kept.
\<close>

definition chartData :: "InputData list \<Rightarrow> ChartData" where
  "chartData data =
     \<lparr>labels = map label data,
      datasets =
        (case (case data of
                 [] \<Rightarrow> None
               | d0 # _ \<Rightarrow> Some (map (series data) [0..<length (values' d0)])) of
           None \<Rightarrow> []
         | Some ds \<Rightarrow> ds)\<rparr>"

section \<open>The component\<close>

record StatCard =
  title :: string
  average :: string
  stdDeviation :: string
  range :: string

record View =
  chart :: ChartData
  cards :: "StatCard list"
  paragraphs :: "string list"

text \<open>
  The body of the component in its order: the chart data, the statistics, the summaries,
  then the markup, where \<^verbatim>\<open>stats?.map\<close> renders nothing for \<^verbatim>\<open>undefined\<close>. An
  exception raised on the way leaves the component.
\<close>

definition DataVisualizer ::
  "nat \<Rightarrow> rounding \<Rightarrow> formatter \<Rightarrow> InputData list \<Rightarrow> error + View" where
  "DataVisualizer maxArgs fl toFixed data =
     (let cd = chartData data
      in case calculateStats maxArgs fl data of
           Inl e \<Rightarrow> Inl e
         | Inr stats \<Rightarrow>
             (case generateSummary toFixed stats of
                Inl e \<Rightarrow> Inl e
              | Inr summaries \<Rightarrow>
                  Inr \<lparr>chart = cd,
                       cards =
                         (case stats of
                            None \<Rightarrow> []
                          | Some st \<Rightarrow>
                              map (\<lambda>(index, stat).
                                     \<lparr>title = ''Input '' @ toString (index + 1) @ '' Statistics'',
                                      average = toFixed (avg stat) 3,
                                      stdDeviation = toFixed (stdDev stat) 3,
                                      range = ''['' @ toFixed (min' stat) 3 @ '', '' @
                                              toFixed (max' stat) 3 @ '']''\<rparr>)
                                  (enumerate 0 st)),
                       paragraphs = summaries\<rparr>))"

section \<open>Test data\<close>

text \<open>The dataset of the spec's example: two records of two values.\<close>

definition twoByTwo :: "InputData list" where
  "twoByTwo =
     [\<lparr>label = ''a'', values' = [Fin 1, Fin 2]\<rparr>, \<lparr>label = ''b'', values' = [Fin 3, Fin 4]\<rparr>]"

text \<open>
  The argument bound of one engine in use, JavaScriptCore, which accepts 65536 arguments
  in a call; the bounds of other engines depend on the size of the stack and are of the
  same order.
\<close>

definition jscMaxArgs :: nat where
  "jscMaxArgs = 65536"

text \<open>A dataset of 130000 records with one value each.\<close>

definition manyRecords :: "InputData list" where
  "manyRecords = replicate 130000 \<lparr>label = ''a'', values' = [Fin 0]\<rparr>"

text \<open>A second record shorter than the first, and a second record longer than the first.\<close>

definition longerLater :: "InputData list" where
  "longerLater =
     [\<lparr>label = ''a'', values' = [Fin 1]\<rparr>, \<lparr>label = ''b'', values' = [Fin 1, Fin 2]\<rparr>]"

definition ragged :: "InputData list" where
  "ragged =
     [\<lparr>label = ''a'', values' = [Fin 1, Fin 2]\<rparr>, \<lparr>label = ''b'', values' = [Fin 3]\<rparr>]"

text \<open>
  The binary64 value that the literal \<^verbatim>\<open>0.1\<close> denotes, and three records holding it.
\<close>

definition tenth :: real where
  "tenth = 3602879701896397 / 2 ^ 55"

definition threeTenths :: "InputData list" where
  "threeTenths =
     [\<lparr>label = ''a'', values' = [Fin tenth]\<rparr>, \<lparr>label = ''b'', values' = [Fin tenth]\<rparr>,
      \<lparr>label = ''c'', values' = [Fin tenth]\<rparr>]"

text \<open>Two records with the two infinities, and one record with an infinity.\<close>

definition oppositeInfinities :: "InputData list" where
  "oppositeInfinities =
     [\<lparr>label = ''a'', values' = [Infinity]\<rparr>, \<lparr>label = ''b'', values' = [NegInfinity]\<rparr>]"

definition oneInfinity :: "InputData list" where
  "oneInfinity = [\<lparr>label = ''a'', values' = [Infinity]\<rparr>]"

text \<open>Two statistics, of standard deviation 0.5 and 2, and a formatter for them.\<close>

definition narrow :: Stats where
  "narrow = \<lparr>avg = Fin 1, min' = Fin (1 / 2), max' = Fin (3 / 2), stdDev = Fin (1 / 2)\<rparr>"

definition wide :: Stats where
  "wide = \<lparr>avg = Fin 1, min' = Fin (- 1), max' = Fin 3, stdDev = Fin 2\<rparr>"

definition hashes :: formatter where
  "hashes x digits = replicate digits CHR ''#''"

section \<open>The statistics of an accepted column\<close>

text \<open>
  The record that \<open>statsOf\<close> returns when its two spread calls are accepted: the same
  expressions without the bound.
\<close>

definition statsWithin :: "rounding \<Rightarrow> number option list \<Rightarrow> Stats" where
  "statsWithin fl vals =
     (let average = js_div fl (foldl (\<lambda>a b. js_add fl a (toNumber b)) (Fin 0) vals)
                             (Fin (real (length vals)));
          lo = Math_min (map toNumber vals);
          hi = Math_max (map toNumber vals);
          dev = Math_sqrt fl
                  (js_div fl
                     (foldl (\<lambda>sum val. js_add fl sum
                                          (Math_pow fl (js_sub fl (toNumber val) average) 2))
                            (Fin 0) vals)
                     (Fin (real (length vals))))
      in \<lparr>avg = average, min' = lo, max' = hi, stdDev = dev\<rparr>)"

section \<open>The statistics as the spec words them\<close>

text \<open>
  The column of a dimension, for records that all have a value there, and the sum of a
  column: its values added in their order, starting from zero, each addition rounded.
\<close>

definition valuesAt :: "InputData list \<Rightarrow> nat \<Rightarrow> number list" where
  "valuesAt data i = map (\<lambda>d. values' d ! i) data"

definition columnSum :: "rounding \<Rightarrow> number list \<Rightarrow> number" where
  "columnSum fl col = foldl (js_add fl) (Fin 0) col"

definition count :: "number list \<Rightarrow> number" where
  "count col = Fin (real (length col))"

text \<open>
  The spec's formulas over the reals: the mean, and the population standard deviation
  with the divisor \<open>N\<close>. The minimum and the maximum are \<open>Min\<close> and \<open>Max\<close> of the
  library.
\<close>

definition mean :: "real list \<Rightarrow> real" where
  "mean col = sum_list col / real (length col)"

definition populationStdDev :: "real list \<Rightarrow> real" where
  "populationStdDev col =
     sqrt (sum_list (map (\<lambda>x. (x - mean col)\<^sup>2) col) / real (length col))"

text \<open>The column of a dimension as reals, for a column of finite numbers.\<close>

definition realColumn :: "InputData list \<Rightarrow> nat \<Rightarrow> real list" where
  "realColumn data i = map (\<lambda>d. realOf (values' d ! i)) data"

section \<open>The grid of binary64 values\<close>

text \<open>
  The distance between neighbouring binary64 values in the binade of \<open>x\<close>, and the
  real that \<open>binary64\<close> rounds \<open>x\<close> to when it does not overflow.
\<close>

definition ulp :: "real \<Rightarrow> real" where
  "ulp x = 2 powi (binade x - 52)"

definition rounded :: "real \<Rightarrow> real" where
  "rounded x = of_int (roundTiesToEven (x / ulp x)) * ulp x"

section \<open>Rounding\<close>

lemma powi_less_cancel: "(2::real) powi j < 2 powi k \<Longrightarrow> j < k"
proof (rule ccontr)
  assume less: "(2::real) powi j < 2 powi k" and "\<not> j < k"
  then have "(2::real) powi k \<le> 2 powi j"
    by (intro power_int_increasing) auto
  with less show False
    by simp
qed

lemma binade_candidates_finite:
  "finite (insert (- 1022) (Set.filter (\<lambda>k. 2 powi k \<le> \<bar>x\<bar>) {- 1022..1023}))"
  by (intro finite.insertI finite_subset [OF _ finite_atLeastAtMost_int [of "- 1022" 1023]]) auto

lemma binade_eq:
  assumes "- 1022 \<le> k" and "k \<le> 1023" and "2 powi k \<le> \<bar>x\<bar>" and "\<bar>x\<bar> < 2 powi (k + 1)"
  shows "binade x = k"
  unfolding binade_def
proof (rule Max_eqI)
  show "k \<in> insert (- 1022) (Set.filter (\<lambda>k. 2 powi k \<le> \<bar>x\<bar>) {- 1022..1023})"
    using assms by simp
  fix j assume "j \<in> insert (- 1022) (Set.filter (\<lambda>k. 2 powi k \<le> \<bar>x\<bar>) {- 1022..1023})"
  then consider "j = - 1022" | "2 powi j \<le> \<bar>x\<bar>"
    by auto
  then show "j \<le> k"
  proof cases
    case 1
    then show ?thesis using assms(1) by simp
  next
    case 2
    with assms(4) have "(2::real) powi j < 2 powi (k + 1)"
      by simp
    then have "j < k + 1"
      by (rule powi_less_cancel)
    then show ?thesis by simp
  qed
qed (rule binade_candidates_finite)

lemma binade_subnormal:
  assumes "\<bar>x\<bar> < 2 powi (- 1022)"
  shows "binade x = - 1022"
  unfolding binade_def
proof (rule Max_eqI)
  show "- 1022 \<in> insert (- 1022) (Set.filter (\<lambda>k. 2 powi k \<le> \<bar>x\<bar>) {- 1022..1023})"
    by simp
  fix j assume "j \<in> insert (- 1022) (Set.filter (\<lambda>k. 2 powi k \<le> \<bar>x\<bar>) {- 1022..1023})"
  then consider "j = - 1022" | "2 powi j \<le> \<bar>x\<bar>"
    by auto
  then show "j \<le> - 1022"
  proof cases
    case 1
    then show ?thesis by simp
  next
    case 2
    with assms have "(2::real) powi j < 2 powi (- 1022)"
      by simp
    then have "j < - 1022"
      by (rule powi_less_cancel)
    then show ?thesis by simp
  qed
qed (rule binade_candidates_finite)

lemma binary64_zero: "binary64 0 = Fin 0"
  by (simp add: binary64_def binade_subnormal roundTiesToEven_def)

lemma binary64_one: "binary64 1 = Fin 1"
  by (simp add: binary64_def binade_eq [of 0] roundTiesToEven_def power_int_minus)

text \<open>The roundings met when the three tenths are added and their sum is divided.\<close>

lemma binary64_tenth: "binary64 tenth = Fin tenth"
  unfolding tenth_def
  by (subst binary64_def, subst binade_eq [of "- 4"])
    (simp_all add: power_int_minus roundTiesToEven_def)

lemma binary64_two_tenths: "binary64 (tenth + tenth) = Fin (3602879701896397 / 2 ^ 54)"
  unfolding tenth_def
  by (subst binary64_def, subst binade_eq [of "- 3"])
    (simp_all add: power_int_minus roundTiesToEven_def)

lemma binary64_three_tenths:
  "binary64 (3602879701896397 / 2 ^ 54 + tenth) = Fin (5404319552844596 / 2 ^ 54)"
  unfolding tenth_def
  by (subst binary64_def, subst binade_eq [of "- 2"])
    (simp_all add: power_int_minus roundTiesToEven_def)

lemma binary64_third_of_sum:
  "binary64 (5404319552844596 / 2 ^ 54 / 3) = Fin (7205759403792795 / 2 ^ 56)"
  by (subst binary64_def, subst binade_eq [of "- 4"])
    (simp_all add: power_int_minus roundTiesToEven_def)


text \<open>Every multiple of a power of two that fits the format is left as it is.\<close>

lemma roundTiesToEven_of_int: "roundTiesToEven (of_int n) = n"
  by (simp add: roundTiesToEven_def)

lemma binade_cases:
  "binade x = - 1022 \<or> (- 1022 \<le> binade x \<and> binade x \<le> 1023 \<and> 2 powi binade x \<le> \<bar>x\<bar>)"
proof -
  have "binade x \<in> insert (- 1022) (Set.filter (\<lambda>k. 2 powi k \<le> \<bar>x\<bar>) {- 1022..1023})"
    unfolding binade_def by (rule Max_in [OF binade_candidates_finite]) simp
  then show ?thesis
    by auto
qed

lemma binary64_representable:
  assumes "\<bar>m\<bar> < 2 ^ 53" and "- 1074 \<le> e" and "e \<le> 971"
  shows "binary64 (of_int m * 2 powi e) = Fin (of_int m * 2 powi e)"
proof -
  let ?x = "of_int m * 2 powi e :: real"
  let ?u = "binade ?x - 52"
  have abs_x: "\<bar>?x\<bar> = of_int \<bar>m\<bar> * 2 powi e"
    by (simp add: abs_mult)
  have "of_int \<bar>m\<bar> < (2::real) ^ 53"
    using assms(1) by (metis of_int_less_iff of_int_numeral of_int_power)
  then have below: "\<bar>?x\<bar> < 2 powi (53 + e)"
    unfolding abs_x by (simp add: power_int_add)
  have u: "?u \<le> e"
    using binade_cases [of ?x]
  proof
    assume "binade ?x = - 1022"
    with assms(2) show ?thesis by simp
  next
    assume "- 1022 \<le> binade ?x \<and> binade ?x \<le> 1023 \<and> 2 powi binade ?x \<le> \<bar>?x\<bar>"
    with below have "(2::real) powi binade ?x < 2 powi (53 + e)"
      by simp
    then have "binade ?x < 53 + e"
      by (rule powi_less_cancel)
    then show ?thesis by simp
  qed
  have "?x / 2 powi ?u = of_int m * 2 powi (e - ?u)"
    by (simp add: power_int_diff)
  also have "(2::real) powi (e - ?u) = of_int (2 ^ nat (e - ?u))"
    using u by (simp add: power_int_def)
  finally have quotient: "?x / 2 powi ?u = of_int (m * 2 ^ nat (e - ?u))"
    by simp
  have "roundTiesToEven (?x / 2 powi ?u) = m * 2 ^ nat (e - ?u)"
    unfolding quotient by (rule roundTiesToEven_of_int)
  then have "of_int (roundTiesToEven (?x / 2 powi ?u)) * 2 powi ?u = ?x / 2 powi ?u * 2 powi ?u"
    unfolding quotient by (simp only:)
  also have "\<dots> = ?x"
    by simp
  finally have y: "of_int (roundTiesToEven (?x / 2 powi ?u)) * 2 powi ?u = ?x" .
  have "(2::real) powi (53 + e) \<le> 2 powi 1024"
    using assms(3) by (intro power_int_increasing) simp_all
  with below have "\<bar>?x\<bar> < 2 ^ 1024"
    by simp
  then have "\<not> 2 ^ 1024 \<le> ?x" and "\<not> ?x \<le> - (2 ^ 1024)"
    by (simp_all add: abs_less_iff)
  then show ?thesis
    unfolding binary64_def Let_def y by simp
qed

lemma binary64_of_int: "\<bar>m\<bar> < 2 ^ 53 \<Longrightarrow> binary64 (of_int m) = Fin (of_int m)"
  using binary64_representable [of m 0] by simp

text \<open>
  The grid of a binade: \<open>rounded x\<close> is the multiple of \<open>ulp x\<close> nearest to \<open>x\<close>.
\<close>

lemma ulp_pos: "0 < ulp x"
  by (simp add: ulp_def)

lemma binary64_rounded:
  "binary64 x = (if 2 ^ 1024 \<le> rounded x then Infinity
                 else if rounded x \<le> - (2 ^ 1024) then NegInfinity else Fin (rounded x))"
  by (simp add: binary64_def rounded_def ulp_def Let_def)

lemma roundTiesToEven_bounds:
  "\<lfloor>t\<rfloor> \<le> roundTiesToEven t" "roundTiesToEven t \<le> \<lfloor>t\<rfloor> + 1"
  by (simp_all add: roundTiesToEven_def Let_def)

lemma roundTiesToEven_lower:
  assumes "of_int k \<le> t"
  shows "k \<le> roundTiesToEven t"
proof -
  from assms have "k \<le> \<lfloor>t\<rfloor>"
    by (simp add: le_floor_iff)
  with roundTiesToEven_bounds(1) [of t] show ?thesis
    by simp
qed

lemma roundTiesToEven_upper:
  assumes "t \<le> of_int k"
  shows "roundTiesToEven t \<le> k"
proof (cases "t = of_int k")
  case True
  then show ?thesis
    by (simp add: roundTiesToEven_of_int)
next
  case False
  with assms have "t < of_int k"
    by simp
  then have "\<lfloor>t\<rfloor> < k"
    by (simp add: floor_less_iff)
  with roundTiesToEven_bounds(2) [of t] show ?thesis
    by simp
qed

lemma rounded_lower:
  assumes "of_int j * ulp x \<le> x"
  shows "of_int j * ulp x \<le> rounded x"
proof -
  from assms ulp_pos [of x] have "of_int j \<le> x / ulp x"
    by (simp add: pos_le_divide_eq)
  then have "j \<le> roundTiesToEven (x / ulp x)"
    by (rule roundTiesToEven_lower)
  then have "(of_int j :: real) \<le> of_int (roundTiesToEven (x / ulp x))"
    by simp
  with ulp_pos [of x] show ?thesis
    unfolding rounded_def by (simp add: mult_right_mono)
qed

lemma rounded_upper:
  assumes "x \<le> of_int j * ulp x"
  shows "rounded x \<le> of_int j * ulp x"
proof -
  from assms ulp_pos [of x] have "x / ulp x \<le> of_int j"
    by (simp add: pos_divide_le_eq)
  then have "roundTiesToEven (x / ulp x) \<le> j"
    by (rule roundTiesToEven_upper)
  then have "(of_int (roundTiesToEven (x / ulp x)) :: real) \<le> of_int j"
    by simp
  with ulp_pos [of x] show ?thesis
    unfolding rounded_def by (simp add: mult_right_mono)
qed

lemma binade_mono:
  assumes "\<bar>x\<bar> \<le> \<bar>y\<bar>"
  shows "binade x \<le> binade y"
  unfolding binade_def
proof (rule Max_mono)
  show "insert (- 1022) (Set.filter (\<lambda>k. 2 powi k \<le> \<bar>x\<bar>) {- 1022..1023})
          \<subseteq> insert (- 1022) (Set.filter (\<lambda>k. 2 powi k \<le> \<bar>y\<bar>) {- 1022..1023})"
    using assms by auto
  show "insert (- 1022) (Set.filter (\<lambda>k. 2 powi k \<le> \<bar>x\<bar>) {- 1022..1023}) \<noteq> {}"
    by simp
qed (rule binade_candidates_finite)

lemma binade_range: "- 1022 \<le> binade x" "binade x \<le> 1023"
  using binade_cases [of x] by auto

lemma binade_lower: "- 1022 < binade x \<Longrightarrow> 2 powi binade x \<le> \<bar>x\<bar>"
  using binade_cases [of x] by auto

lemma binade_upper:
  assumes "binade v < k" and "k \<le> 1023"
  shows "\<bar>v\<bar> < 2 powi k"
proof (rule ccontr)
  assume "\<not> \<bar>v\<bar> < 2 powi k"
  then have le: "2 powi k \<le> \<bar>v\<bar>"
    by simp
  from assms(1) binade_range(1) [of v] have "- 1022 \<le> k"
    by simp
  with le assms(2) have "k \<in> insert (- 1022) (Set.filter (\<lambda>k. 2 powi k \<le> \<bar>v\<bar>) {- 1022..1023})"
    by simp
  then have "k \<le> binade v"
    unfolding binade_def by (rule Max_ge [OF binade_candidates_finite])
  with assms(1) show False
    by simp
qed

text \<open>A value that the rounding leaves as it is lies on the grid of every binade below its own.\<close>

lemma fixed_rounded: "binary64 v = Fin v \<Longrightarrow> rounded v = v"
  by (simp add: binary64_rounded split: if_splits)

lemma fixed_on_grid:
  assumes "binary64 v = Fin v" and "binade x \<le> binade v"
  shows "\<exists>j. v = of_int j * ulp x"
proof -
  let ?n = "roundTiesToEven (v / ulp v)"
  let ?d = "nat (binade v - binade x)"
  have "binade v - 52 = binade x - 52 + int ?d"
    using assms(2) by simp
  then have "ulp v = 2 powi (binade x - 52 + int ?d)"
    by (simp only: ulp_def)
  also have "\<dots> = 2 powi (binade x - 52) * 2 powi int ?d"
    by (rule power_int_add) simp
  also have "(2::real) powi int ?d = 2 ^ ?d"
    by (rule power_int_of_nat)
  finally have "ulp v = of_int (2 ^ ?d) * ulp x"
    by (simp add: ulp_def)
  moreover have "v = of_int ?n * ulp v"
    using fixed_rounded [OF assms(1)] by (simp add: rounded_def)
  ultimately have "v = of_int (?n * 2 ^ ?d) * ulp x"
    by simp
  then show ?thesis ..
qed

lemma binade_boundary_on_grid: "2 powi binade x = of_int (2 ^ 52) * ulp x"
proof -
  have "(2::real) powi binade x = 2 powi (52 + (binade x - 52))"
    by simp
  also have "\<dots> = 2 powi 52 * 2 powi (binade x - 52)"
    by (subst power_int_add) simp_all
  finally show ?thesis
    by (simp add: ulp_def)
qed

lemma coarser_binade:
  assumes "binade v < binade x"
  shows "\<bar>v\<bar> < 2 powi binade x" and "2 powi binade x \<le> \<bar>x\<bar>"
proof -
  show "\<bar>v\<bar> < 2 powi binade x"
    using assms binade_range(2) [of x] by (rule binade_upper)
  from assms binade_range(1) [of v] have "- 1022 < binade x"
    by simp
  then show "2 powi binade x \<le> \<bar>x\<bar>"
    by (rule binade_lower)
qed

lemma rounded_not_below:
  assumes "binary64 v = Fin v" and "v \<le> x"
  shows "v \<le> rounded x"
proof (cases "binade x \<le> binade v")
  case True
  from fixed_on_grid [OF assms(1) True] obtain j where "v = of_int j * ulp x" ..
  with assms(2) rounded_lower [of j x] show ?thesis
    by simp
next
  case False
  then have "binade v < binade x"
    by simp
  then have "\<bar>v\<bar> < 2 powi binade x" and "2 powi binade x \<le> \<bar>x\<bar>"
    by (rule coarser_binade)+
  with assms(2) have "2 powi binade x \<le> x"
    by (simp add: abs_if split: if_splits)
  then have "2 powi binade x \<le> rounded x"
    unfolding binade_boundary_on_grid by (rule rounded_lower)
  with \<open>\<bar>v\<bar> < 2 powi binade x\<close> show ?thesis
    by simp
qed

lemma rounded_not_above:
  assumes "binary64 v = Fin v" and "x \<le> v"
  shows "rounded x \<le> v"
proof (cases "binade x \<le> binade v")
  case True
  from fixed_on_grid [OF assms(1) True] obtain j where "v = of_int j * ulp x" ..
  with assms(2) rounded_upper [of x j] show ?thesis
    by simp
next
  case False
  then have "binade v < binade x"
    by simp
  then have "\<bar>v\<bar> < 2 powi binade x" and "2 powi binade x \<le> \<bar>x\<bar>"
    by (rule coarser_binade)+
  with assms(2) have "x \<le> - (2 powi binade x)"
    by (simp add: abs_if split: if_splits)
  then have "x \<le> of_int (- (2 ^ 52)) * ulp x"
    by (simp add: binade_boundary_on_grid)
  then have "rounded x \<le> of_int (- (2 ^ 52)) * ulp x"
    by (rule rounded_upper)
  then have "rounded x \<le> - (2 powi binade x)"
    by (simp add: binade_boundary_on_grid)
  with \<open>\<bar>v\<bar> < 2 powi binade x\<close> show ?thesis
    by simp
qed

text \<open>Rounding does not carry a result across a value of the format.\<close>

lemma binary64_not_below:
  assumes "binary64 v = Fin v" and "v \<le> x"
  shows "js_le (Fin v) (binary64 x)"
proof -
  have "rounded v = v"
    using assms(1) by (rule fixed_rounded)
  with assms(1) have "\<not> v \<le> - (2 ^ 1024)"
    unfolding binary64_rounded by (simp split: if_splits)
  with rounded_not_below [OF assms] show ?thesis
    unfolding binary64_rounded by (simp add: js_le_def)
qed

lemma binary64_not_above:
  assumes "binary64 v = Fin v" and "x \<le> v"
  shows "js_le (binary64 x) (Fin v)"
proof -
  have "rounded v = v"
    using assms(1) by (rule fixed_rounded)
  with assms(1) have "\<not> 2 ^ 1024 \<le> v"
    unfolding binary64_rounded by (simp split: if_splits)
  with rounded_not_above [OF assms] show ?thesis
    unfolding binary64_rounded by (simp add: js_le_def)
qed

section \<open>Columns and the shape of the result\<close>

lemma column_in_bounds:
  "\<forall>d\<in>set data. i < length (values' d) \<Longrightarrow>
   column data i = map (\<lambda>d. Some (values' d ! i)) data"
  by (simp add: column_def arrayGet_def)

lemma length_column: "length (column data i) = length data"
  by (simp add: column_def)

lemma column_uniform:
  assumes "\<forall>d\<in>set data. length (values' d) = D" and "i < D"
  shows "column data i = map (\<lambda>d. Some (values' d ! i)) data"
proof -
  from assms have "\<forall>d\<in>set data. i < length (values' d)"
    by simp
  then show ?thesis
    by (rule column_in_bounds)
qed

section \<open>The bound on the arguments\<close>

lemma statsOf_within:
  "length vals \<le> max 1 maxArgs \<Longrightarrow> statsOf maxArgs fl vals = Inr (statsWithin fl vals)"
  by (simp add: statsOf_def statsWithin_def spread_def Let_def)

lemma statsOf_beyond:
  "\<not> length vals \<le> max 1 maxArgs \<Longrightarrow> statsOf maxArgs fl vals = Inl RangeError"
  by (simp add: statsOf_def spread_def Let_def del: max_less_iff_conj not_le)

lemma mapE_Inr: "(\<And>x. x \<in> set xs \<Longrightarrow> f x = Inr (g x)) \<Longrightarrow> mapE f xs = Inr (map g xs)"
  by (induction xs) simp_all

lemma mapE_Inl: "xs \<noteq> [] \<Longrightarrow> f (hd xs) = Inl e \<Longrightarrow> mapE f xs = Inl e"
  by (cases xs) simp_all

lemma calculateStats_Cons:
  "calculateStats maxArgs fl (d0 # rest) =
     (case mapE (\<lambda>index. statsOf maxArgs fl (column (d0 # rest) index))
                [0..<length (values' d0)] of
        Inl e \<Rightarrow> Inl e
      | Inr stats \<Rightarrow> Inr (Some stats))"
  by (simp add: calculateStats_def)

text \<open>
  With a first record, \<open>calculateStats\<close> returns one statistic for each of its values
  when that record has no values or the records are no more than the bound, and raises
  otherwise: the first call of the callback spreads the whole column.
\<close>

lemma calculateStats_first:
  "calculateStats maxArgs fl (d0 # rest) =
     (if values' d0 = [] \<or> length (d0 # rest) \<le> max 1 maxArgs
      then Inr (Some (map (\<lambda>index. statsWithin fl (column (d0 # rest) index))
                          [0..<length (values' d0)]))
      else Inl RangeError)"
proof (cases "length (d0 # rest) \<le> max 1 maxArgs")
  case True
  then have "mapE (\<lambda>index. statsOf maxArgs fl (column (d0 # rest) index)) [0..<length (values' d0)] =
      Inr (map (\<lambda>index. statsWithin fl (column (d0 # rest) index)) [0..<length (values' d0)])"
    by (intro mapE_Inr statsOf_within) (simp add: length_column)
  with True show ?thesis
    by (simp add: calculateStats_Cons)
next
  case beyond: False
  show ?thesis
  proof (cases "values' d0 = []")
    case True
    then show ?thesis
      by (simp add: calculateStats_Cons)
  next
    case False
    then have upt: "[0..<length (values' d0)] \<noteq> []" "hd [0..<length (values' d0)] = 0"
      by (simp_all add: upt_conv_Cons)
    from beyond have "statsOf maxArgs fl (column (d0 # rest) 0) = Inl RangeError"
      by (intro statsOf_beyond) (simp only: length_column not_False_eq_True)
    then have "mapE (\<lambda>index. statsOf maxArgs fl (column (d0 # rest) index))
                 [0..<length (values' d0)] = Inl RangeError"
      using upt by (intro mapE_Inl) simp_all
    with beyond False show ?thesis
      by (simp only: calculateStats_Cons sum.case simp_thms if_False)
  qed
qed

lemma calculateStats_uniform:
  assumes "data \<noteq> []" and "\<forall>d\<in>set data. length (values' d) = D"
  shows "calculateStats maxArgs fl data =
           (if D = 0 \<or> length data \<le> max 1 maxArgs
            then Inr (Some (map (\<lambda>i. statsWithin fl (map (\<lambda>d. Some (values' d ! i)) data)) [0..<D]))
            else Inl RangeError)"
proof -
  from assms(1) obtain d0 rest where data: "data = d0 # rest"
    by (cases data) auto
  with assms(2) have len0: "length (values' d0) = D"
    by simp
  have "map (\<lambda>index. statsWithin fl (column data index)) [0..<D] =
        map (\<lambda>i. statsWithin fl (map (\<lambda>d. Some (values' d ! i)) data)) [0..<D]"
    by (simp add: column_uniform [OF assms(2)])
  moreover have "values' d0 = [] \<longleftrightarrow> D = 0"
    using len0 by auto
  ultimately show ?thesis
    using calculateStats_first [of maxArgs fl d0 rest] data len0 by (simp only:)
qed

lemma calculateStats_uniform_within:
  assumes "data \<noteq> []" and "\<forall>d\<in>set data. length (values' d) = D"
    and "length data \<le> max 1 maxArgs"
  shows "calculateStats maxArgs fl data =
           Inr (Some (map (\<lambda>i. statsWithin fl (map (\<lambda>d. Some (values' d ! i)) data)) [0..<D]))"
  using assms(3) by (simp add: calculateStats_uniform [OF assms(1,2)])

lemma calculateStats_uniform_returned:
  assumes "data \<noteq> []" and "\<forall>d\<in>set data. length (values' d) = D"
    and "calculateStats maxArgs fl data = Inr (Some stats)"
  shows "stats = map (\<lambda>i. statsWithin fl (map (\<lambda>d. Some (values' d ! i)) data)) [0..<D]"
  using assms(3) by (simp add: calculateStats_uniform [OF assms(1,2)] split: if_splits)

section \<open>One dimension under any rounding\<close>

lemma Fin_realOf: "isFinite x \<Longrightarrow> Fin (realOf x) = x"
  by (cases x) simp_all

lemma sum_defined:
  "foldl (\<lambda>a b. js_add fl a (toNumber b)) acc (map Some col) = foldl (js_add fl) acc col"
  by (induction col arbitrary: acc) simp_all

lemma squares_defined:
  "foldl (\<lambda>sum val. js_add fl sum (Math_pow fl (js_sub fl (toNumber val) m) 2)) acc
         (map Some col) =
   foldl (js_add fl) acc (map (\<lambda>x. Math_pow fl (js_sub fl x m) 2) col)"
  by (induction col arbitrary: acc) simp_all

lemma statsWithin_defined:
  "statsWithin fl (map Some col) =
     \<lparr>avg = js_div fl (columnSum fl col) (count col),
      min' = Math_min col,
      max' = Math_max col,
      stdDev = Math_sqrt fl
                 (js_div fl
                    (columnSum fl
                       (map (\<lambda>x. Math_pow fl (js_sub fl x (js_div fl (columnSum fl col) (count col))) 2)
                            col))
                    (count col))\<rparr>"
proof -
  have "map toNumber (map Some col) = col"
    by (simp add: comp_def)
  then show ?thesis
    unfolding statsWithin_def Let_def columnSum_def count_def
    by (simp only: sum_defined squares_defined length_map)
qed

lemma column_valuesAt:
  "map (\<lambda>d. Some (values' d ! i)) data = map Some (valuesAt data i)"
  by (simp add: valuesAt_def)

lemma valuesAt_finite:
  assumes "\<forall>x\<in>set (valuesAt data i). isFinite x"
  shows "valuesAt data i = map Fin (realColumn data i)"
  using assms by (simp add: valuesAt_def realColumn_def Fin_realOf)

section \<open>One dimension in exact arithmetic\<close>

lemma finite_column:
  assumes "\<forall>d\<in>set data. isFinite (values' d ! i)"
  shows "map (\<lambda>d. Some (values' d ! i)) data = map (\<lambda>x. Some (Fin x)) (realColumn data i)"
  using assms by (simp add: realColumn_def Fin_realOf)

lemma sum_exact:
  "foldl (\<lambda>a b. js_add exact a (toNumber b)) (Fin s) (map (\<lambda>x. Some (Fin x)) rs) =
   Fin (s + sum_list rs)"
  by (induction rs arbitrary: s) (simp_all add: add.assoc exact_def)

lemma Math_pow_2: "Math_pow fl (Fin a) 2 = fl (a\<^sup>2)"
  by (simp add: numeral_2_eq_2)

lemma squares_exact:
  "foldl (\<lambda>sum val. js_add exact sum (Math_pow exact (js_sub exact (toNumber val) (Fin m)) 2))
         (Fin s) (map (\<lambda>x. Some (Fin x)) rs) =
   Fin (s + sum_list (map (\<lambda>x. (x - m)\<^sup>2) rs))"
  by (induction rs arbitrary: s) (simp_all add: add.assoc js_sub_def Math_pow_2 exact_def)

lemma min_from_finite:
  "min_from (Fin m) (map Fin rs) = Fin (Min (set (m # rs)))"
proof (induction rs arbitrary: m)
  case Nil
  then show ?case by simp
next
  case (Cons x rs)
  let ?m = "if x < m then x else m"
  have "min_from (Fin m) (map Fin (x # rs)) = min_from (Fin ?m) (map Fin rs)"
    by simp
  also have "\<dots> = Fin (Min (set (?m # rs)))"
    by (rule Cons.IH)
  also have "Min (set (?m # rs)) = Min (set (m # x # rs))"
    by (cases "rs = []") (auto simp: min_def)
  finally show ?case .
qed

lemma max_from_finite:
  "max_from (Fin m) (map Fin rs) = Fin (Max (set (m # rs)))"
proof (induction rs arbitrary: m)
  case Nil
  then show ?case by simp
next
  case (Cons x rs)
  let ?m = "if m < x then x else m"
  have "max_from (Fin m) (map Fin (x # rs)) = max_from (Fin ?m) (map Fin rs)"
    by simp
  also have "\<dots> = Fin (Max (set (?m # rs)))"
    by (rule Cons.IH)
  also have "Max (set (?m # rs)) = Max (set (m # x # rs))"
    by (cases "rs = []") (auto simp: max_def)
  finally show ?case .
qed

lemma Math_min_finite: "rs \<noteq> [] \<Longrightarrow> Math_min (map Fin rs) = Fin (Min (set rs))"
  by (cases rs) (simp_all add: Math_min_def min_from_finite del: set_simps Min_insert)

lemma Math_max_finite: "rs \<noteq> [] \<Longrightarrow> Math_max (map Fin rs) = Fin (Max (set rs))"
  by (cases rs) (simp_all add: Math_max_def max_from_finite del: set_simps Max_insert)

lemma sum_squares_nonneg: "0 \<le> sum_list (map (\<lambda>x. (x - m)\<^sup>2) rs)" for m :: real
  by (induction rs) simp_all

lemma statsWithin_exact:
  assumes "rs \<noteq> []"
  shows "statsWithin exact (map (\<lambda>x. Some (Fin x)) rs) =
           \<lparr>avg = Fin (mean rs), min' = Fin (Min (set rs)), max' = Fin (Max (set rs)),
            stdDev = Fin (populationStdDev rs)\<rparr>"
proof -
  have n: "real (length rs) \<noteq> 0" "0 < real (length rs)"
    using assms by simp_all
  have m: "map toNumber (map (\<lambda>x. Some (Fin x)) rs) = map Fin rs"
    by simp
  have nonneg: "\<not> sum_list (map (\<lambda>x. (x - mean rs)\<^sup>2) rs) / real (length rs) < 0"
    using sum_squares_nonneg [of "mean rs" rs] n(2) by (simp add: not_less)
  show ?thesis
    unfolding statsWithin_def Let_def m
    using n nonneg assms
    by (simp add: sum_exact squares_exact Math_min_finite Math_max_finite mean_def
        populationStdDev_def exact_def del: map_map)
qed

lemma statsWithin_exact_column:
  assumes "data \<noteq> []" and "\<forall>d\<in>set data. isFinite (values' d ! i)"
  shows "statsWithin exact (map (\<lambda>d. Some (values' d ! i)) data) =
           \<lparr>avg = Fin (mean (realColumn data i)),
            min' = Fin (Min (set (realColumn data i))),
            max' = Fin (Max (set (realColumn data i))),
            stdDev = Fin (populationStdDev (realColumn data i))\<rparr>"
proof -
  have "realColumn data i \<noteq> []"
    using assms(1) by (simp add: realColumn_def)
  then show ?thesis
    unfolding finite_column [OF assms(2)] by (rule statsWithin_exact)
qed

lemma lower_bound_sum:
  "\<forall>x\<in>set xs. m \<le> x \<Longrightarrow> m * real (length xs) \<le> sum_list xs" for m :: real
  by (induction xs) (simp_all add: algebra_simps)

lemma upper_bound_sum:
  "\<forall>x\<in>set xs. x \<le> m \<Longrightarrow> sum_list xs \<le> m * real (length xs)" for m :: real
  by (induction xs) (simp_all add: algebra_simps)

lemma mean_between:
  assumes "xs \<noteq> []"
  shows "Min (set xs) \<le> mean xs" and "mean xs \<le> Max (set xs)"
proof -
  have n: "0 < real (length xs)"
    using assms by simp
  have "Min (set xs) * real (length xs) \<le> sum_list xs"
    by (rule lower_bound_sum) simp
  then show "Min (set xs) \<le> mean xs"
    using n by (simp add: mean_def pos_le_divide_eq)
  have "sum_list xs \<le> Max (set xs) * real (length xs)"
    by (rule upper_bound_sum) simp
  then show "mean xs \<le> Max (set xs)"
    using n by (simp add: mean_def pos_divide_le_eq)
qed

lemma populationStdDev_single: "populationStdDev [x] = 0"
  by (simp add: populationStdDev_def mean_def)

section \<open>The empty dataset\<close>

text \<open>
  C1. For the empty dataset \<open>calculateStats\<close> gives \<^verbatim>\<open>undefined\<close>, not an empty
  array, and \<open>generateSummary\<close> then raises the \<^verbatim>\<open>TypeError\<close>, which ends the
  component: the statistics are absent, but the pipeline does not complete.
\<close>

theorem empty_dataset_raises:
  "calculateStats maxArgs fl [] = Inr None \<and>
   generateSummary toFixed None = Inl TypeError \<and>
   DataVisualizer maxArgs fl toFixed [] = Inl TypeError"
  by (simp add: calculateStats_def generateSummary_def DataVisualizer_def)

section \<open>The statistics of a uniform dataset\<close>

text \<open>
  C3, as stated, fails: 130000 records with one value each are a non-empty dataset with
  one dimension, and the spread call of the callback raises a \<^verbatim>\<open>RangeError\<close>; no
  statistics are returned.
\<close>

theorem many_records_raise:
  "length manyRecords = 130000 \<and>
   calculateStats jscMaxArgs binary64 manyRecords = Inl RangeError"
proof -
  have "manyRecords \<noteq> []" and "\<forall>d\<in>set manyRecords. length (values' d) = 1"
    by (simp_all add: manyRecords_def)
  from calculateStats_uniform [OF this, of jscMaxArgs binary64] show ?thesis
    by (simp add: manyRecords_def jscMaxArgs_def)
qed

text \<open>The same holds for every engine whose bound is below the number of records.\<close>

lemma many_records_raise_below:
  "maxArgs < 130000 \<Longrightarrow> calculateStats maxArgs fl manyRecords = Inl RangeError"
proof -
  assume "maxArgs < 130000"
  moreover have "manyRecords \<noteq> []" and "\<forall>d\<in>set manyRecords. length (values' d) = 1"
    by (simp_all add: manyRecords_def)
  from calculateStats_uniform [OF this, of maxArgs fl]
  have "calculateStats maxArgs fl manyRecords =
      (if length manyRecords \<le> max 1 maxArgs
       then Inr (Some (map (\<lambda>i. statsWithin fl (map (\<lambda>d. Some (values' d ! i)) manyRecords)) [0..<1]))
       else Inl RangeError)"
    by simp
  ultimately show ?thesis
    by (simp add: manyRecords_def)
qed

text \<open>
  C3, amended. For a non-empty dataset whose records all have \<open>D\<close> values and are no
  more than the engine accepts as arguments of a call, \<open>calculateStats\<close> returns exactly
  \<open>D\<close> statistics, and the one at index \<open>i\<close> is what the callback computes from the
  values at index \<open>i\<close> of the records, in the order of the records. This holds under
  every rounding.
\<close>

theorem calculateStats_one_per_dimension:
  assumes "data \<noteq> []" and "\<forall>d\<in>set data. length (values' d) = D"
    and "length data \<le> max 1 maxArgs"
  shows "\<exists>stats. calculateStats maxArgs fl data = Inr (Some stats) \<and> length stats = D \<and>
           (\<forall>i<D. statsOf maxArgs fl (map (\<lambda>d. Some (values' d ! i)) data) = Inr (stats ! i))"
  using assms(3) by (simp add: calculateStats_uniform_within [OF assms] statsOf_within)

theorem calculateStats_one_per_dimension_witness:
  "\<exists>stats. calculateStats jscMaxArgs binary64 twoByTwo = Inr (Some stats) \<and> length stats = 2 \<and>
     statsOf jscMaxArgs binary64 [Some (Fin 1), Some (Fin 3)] = Inr (stats ! 0) \<and>
     statsOf jscMaxArgs binary64 [Some (Fin 2), Some (Fin 4)] = Inr (stats ! 1)"
proof -
  have "twoByTwo \<noteq> []" "\<forall>d\<in>set twoByTwo. length (values' d) = 2"
    "length twoByTwo \<le> max 1 jscMaxArgs"
    by (simp_all add: twoByTwo_def jscMaxArgs_def)
  from calculateStats_one_per_dimension [OF this, of binary64]
  obtain stats where "calculateStats jscMaxArgs binary64 twoByTwo = Inr (Some stats)"
    and "length stats = 2"
    and each: "\<forall>i<2. statsOf jscMaxArgs binary64 (map (\<lambda>d. Some (values' d ! i)) twoByTwo) =
                 Inr (stats ! i)"
    by blast
  moreover from each [rule_format, of 0] each [rule_format, of 1]
  have "statsOf jscMaxArgs binary64 [Some (Fin 1), Some (Fin 3)] = Inr (stats ! 0)"
    and "statsOf jscMaxArgs binary64 [Some (Fin 2), Some (Fin 4)] = Inr (stats ! 1)"
    by (simp_all add: twoByTwo_def)
  ultimately show ?thesis
    by blast
qed

text \<open>
  C2. For a non-empty dataset whose records all have \<open>D\<close> values and a dimension
  \<open>i < D\<close>, the statistics are computed when the records are no more than the engine
  accepts as arguments of a call, and whenever they are computed, with the column of the
  values at \<open>i\<close>:
  \<^item> the average is the sum of the column divided by its count, and the standard deviation
    is the square root of the sum of the squared deviations from that average divided by
    the count (the divisor is \<open>N\<close>), under every rounding of the operations;
  \<^item> for a column of finite values the minimum and the maximum are its least and its
    greatest value;
  \<^item> in exact arithmetic the average of such a column is its mean and the standard
    deviation its population standard deviation.
\<close>

theorem calculateStats_formulas:
  assumes "data \<noteq> []" and "\<forall>d\<in>set data. length (values' d) = D" and "i < D"
  shows "(length data \<le> max 1 maxArgs \<longrightarrow>
            (\<exists>stats. calculateStats maxArgs fl data = Inr (Some stats))) \<and>
         (\<forall>stats. calculateStats maxArgs fl data = Inr (Some stats) \<longrightarrow>
     (let col = valuesAt data i; s = stats ! i
      in avg s = js_div fl (columnSum fl col) (count col) \<and>
         min' s = Math_min col \<and>
         max' s = Math_max col \<and>
         stdDev s =
           Math_sqrt fl
             (js_div fl (columnSum fl (map (\<lambda>x. Math_pow fl (js_sub fl x (avg s)) 2) col))
                        (count col)) \<and>
         ((\<forall>x\<in>set col. isFinite x) \<longrightarrow>
            min' s = Fin (Min (set (realColumn data i))) \<and>
            max' s = Fin (Max (set (realColumn data i)))) \<and>
         ((\<forall>x\<in>set col. isFinite x) \<and> fl = exact \<longrightarrow>
            avg s = Fin (mean (realColumn data i)) \<and>
            stdDev s = Fin (populationStdDev (realColumn data i)))))"
proof (intro conjI impI allI)
  assume "length data \<le> max 1 maxArgs"
  then show "\<exists>stats. calculateStats maxArgs fl data = Inr (Some stats)"
    by (simp add: calculateStats_uniform_within [OF assms(1,2)])
next
  fix stats
  assume "calculateStats maxArgs fl data = Inr (Some stats)"
  with assms(1,2) have stats: "stats = map (\<lambda>i. statsWithin fl (map (\<lambda>d. Some (values' d ! i)) data)) [0..<D]"
    by (rule calculateStats_uniform_returned)
  let ?col = "valuesAt data i"
  have nonempty: "realColumn data i \<noteq> []"
    using assms(1) by (simp add: realColumn_def)
  have nth: "stats ! i = statsWithin fl (map Some ?col)"
    unfolding stats using assms(3) by (simp add: column_valuesAt)
  have rounded: "avg (stats ! i) = js_div fl (columnSum fl ?col) (count ?col) \<and>
      min' (stats ! i) = Math_min ?col \<and> max' (stats ! i) = Math_max ?col \<and>
      stdDev (stats ! i) =
        Math_sqrt fl
          (js_div fl (columnSum fl (map (\<lambda>x. Math_pow fl (js_sub fl x (avg (stats ! i))) 2) ?col))
                     (count ?col))"
    unfolding nth by (simp add: statsWithin_defined)
  have extremes: "min' (stats ! i) = Fin (Min (set (realColumn data i))) \<and>
      max' (stats ! i) = Fin (Max (set (realColumn data i)))"
    if "\<forall>x\<in>set ?col. isFinite x"
  proof -
    have col: "?col = map Fin (realColumn data i)"
      by (rule valuesAt_finite [OF that])
    have "Math_min ?col = Fin (Min (set (realColumn data i)))"
      and "Math_max ?col = Fin (Max (set (realColumn data i)))"
      unfolding col using nonempty by (rule Math_min_finite Math_max_finite)+
    with rounded show ?thesis
      by (simp only:)
  qed
  have real: "avg (stats ! i) = Fin (mean (realColumn data i)) \<and>
      stdDev (stats ! i) = Fin (populationStdDev (realColumn data i))"
    if "\<forall>x\<in>set ?col. isFinite x" and "fl = exact"
  proof -
    from that(1) have "\<forall>d\<in>set data. isFinite (values' d ! i)"
      by (simp add: valuesAt_def)
    from statsWithin_exact_column [OF assms(1) this]
    have "avg (statsWithin exact (map Some ?col)) = Fin (mean (realColumn data i)) \<and>
          stdDev (statsWithin exact (map Some ?col)) = Fin (populationStdDev (realColumn data i))"
      by (simp add: column_valuesAt)
    then show ?thesis
      unfolding nth that(2) .
  qed
  from rounded extremes real
  show "let col = valuesAt data i; s = stats ! i
      in avg s = js_div fl (columnSum fl col) (count col) \<and>
         min' s = Math_min col \<and>
         max' s = Math_max col \<and>
         stdDev s =
           Math_sqrt fl
             (js_div fl (columnSum fl (map (\<lambda>x. Math_pow fl (js_sub fl x (avg s)) 2) col))
                        (count col)) \<and>
         ((\<forall>x\<in>set col. isFinite x) \<longrightarrow>
            min' s = Fin (Min (set (realColumn data i))) \<and>
            max' s = Fin (Max (set (realColumn data i)))) \<and>
         ((\<forall>x\<in>set col. isFinite x) \<and> fl = exact \<longrightarrow>
            avg s = Fin (mean (realColumn data i)) \<and>
            stdDev s = Fin (populationStdDev (realColumn data i)))"
    unfolding Let_def by blast
qed

text \<open>The spec's example: dimension 0 of the two records has average 2, range 1 to 3, deviation 1.\<close>

theorem calculateStats_formulas_witness:
  "\<exists>stats. calculateStats jscMaxArgs exact twoByTwo = Inr (Some stats) \<and>
     avg (stats ! 0) = Fin 2 \<and> min' (stats ! 0) = Fin 1 \<and>
     max' (stats ! 0) = Fin 3 \<and> stdDev (stats ! 0) = Fin 1"
proof -
  have hyps: "twoByTwo \<noteq> []" "\<forall>d\<in>set twoByTwo. length (values' d) = 2" "(0::nat) < 2"
    by (simp_all add: twoByTwo_def)
  have within: "length twoByTwo \<le> max 1 jscMaxArgs"
    by (simp add: twoByTwo_def jscMaxArgs_def)
  have finite: "\<forall>x\<in>set (valuesAt twoByTwo 0). isFinite x"
    by (simp add: valuesAt_def twoByTwo_def)
  have "realColumn twoByTwo 0 = [1, 3]"
    by (simp add: realColumn_def twoByTwo_def)
  then have column: "mean (realColumn twoByTwo 0) = 2" "populationStdDev (realColumn twoByTwo 0) = 1"
    "Min (set (realColumn twoByTwo 0)) = 1" "Max (set (realColumn twoByTwo 0)) = 3"
    by (simp_all add: mean_def populationStdDev_def)
  from calculateStats_formulas [OF hyps, of jscMaxArgs exact] within
  obtain stats where returned: "calculateStats jscMaxArgs exact twoByTwo = Inr (Some stats)"
    by blast
  with calculateStats_formulas [OF hyps, of jscMaxArgs exact]
  have "(\<forall>x\<in>set (valuesAt twoByTwo 0). isFinite x) \<longrightarrow>
           min' (stats ! 0) = Fin (Min (set (realColumn twoByTwo 0))) \<and>
           max' (stats ! 0) = Fin (Max (set (realColumn twoByTwo 0)))"
    and "(\<forall>x\<in>set (valuesAt twoByTwo 0). isFinite x) \<and> exact = exact \<longrightarrow>
           avg (stats ! 0) = Fin (mean (realColumn twoByTwo 0)) \<and>
           stdDev (stats ! 0) = Fin (populationStdDev (realColumn twoByTwo 0))"
    unfolding Let_def by blast+
  with finite column returned show ?thesis
    by simp
qed

text \<open>
  Under the rounding of the runtime the example has the same statistics: every
  intermediate result is a small integer.
\<close>

lemma calculateStats_twoByTwo:
  "calculateStats jscMaxArgs binary64 twoByTwo =
     Inr (Some [\<lparr>avg = Fin 2, min' = Fin 1, max' = Fin 3, stdDev = Fin 1\<rparr>,
                \<lparr>avg = Fin 3, min' = Fin 2, max' = Fin 4, stdDev = Fin 1\<rparr>])"
proof -
  note small = binary64_of_int [of 1, simplified] binary64_of_int [of 2, simplified]
    binary64_of_int [of 3, simplified] binary64_of_int [of 4, simplified]
    binary64_of_int [of 6, simplified] binary64_of_int [of "- 1", simplified]
  show ?thesis
    by (simp add: twoByTwo_def calculateStats_def column_def arrayGet_def statsOf_def spread_def
        jscMaxArgs_def Let_def Math_min_def Math_max_def js_sub_def Math_pow_2 small)
qed

section \<open>The average between the extremes\<close>

text \<open>
  Under the rounding of the runtime the average of three records holding 0.1 is the next
  binary64 value above 0.1: the sum rounds up, and so does its third.
\<close>

lemma column_threeTenths:
  "column threeTenths 0 = [Some (Fin tenth), Some (Fin tenth), Some (Fin tenth)]"
  by (simp add: threeTenths_def column_def arrayGet_def)

lemma avg_statsWithin:
  "avg (statsWithin fl vals) =
     js_div fl (foldl (\<lambda>a b. js_add fl a (toNumber b)) (Fin 0) vals) (Fin (real (length vals)))"
  by (simp add: statsWithin_def Let_def)

lemma max_statsWithin: "max' (statsWithin fl vals) = Math_max (map toNumber vals)"
  by (simp add: statsWithin_def Let_def)

lemma js_div_finite: "b \<noteq> 0 \<Longrightarrow> js_div fl (Fin a) (Fin b) = fl (a / b)"
  by simp

lemma avg_threeTenths:
  "avg (statsWithin binary64 [Some (Fin tenth), Some (Fin tenth), Some (Fin tenth)]) =
     Fin (7205759403792795 / 2 ^ 56)"
proof -
  have s1: "js_add binary64 (Fin 0) (Fin tenth) = Fin tenth"
    by (simp add: binary64_tenth)
  have s2: "js_add binary64 (Fin tenth) (Fin tenth) = Fin (3602879701896397 / 2 ^ 54)"
    by (simp only: js_add.simps binary64_two_tenths)
  have s3: "js_add binary64 (Fin (3602879701896397 / 2 ^ 54)) (Fin tenth) =
              Fin (5404319552844596 / 2 ^ 54)"
    by (simp only: js_add.simps binary64_three_tenths)
  have "js_div binary64 (Fin (5404319552844596 / 2 ^ 54)) (Fin 3) =
          binary64 (5404319552844596 / 2 ^ 54 / 3)"
    by (rule js_div_finite) simp
  then have s4: "js_div binary64 (Fin (5404319552844596 / 2 ^ 54)) (Fin 3) =
                   Fin (7205759403792795 / 2 ^ 56)"
    by (simp only: binary64_third_of_sum)
  have "foldl (\<lambda>a b. js_add binary64 a (toNumber b)) (Fin 0)
          [Some (Fin tenth), Some (Fin tenth), Some (Fin tenth)] =
        Fin (5404319552844596 / 2 ^ 54)"
    by (simp only: foldl.simps toNumber.simps s1 s2 s3)
  moreover have "Fin (real (length [Some (Fin tenth), Some (Fin tenth), Some (Fin tenth)])) = Fin 3"
    by simp
  ultimately show ?thesis
    by (simp only: avg_statsWithin s4)
qed

lemma max_threeTenths:
  "max' (statsWithin binary64 [Some (Fin tenth), Some (Fin tenth), Some (Fin tenth)]) =
     Fin (7205759403792794 / 2 ^ 56)"
proof -
  have "max' (statsWithin binary64 [Some (Fin tenth), Some (Fin tenth), Some (Fin tenth)]) = Fin tenth"
    by (simp add: max_statsWithin Math_max_def)
  moreover have "tenth = 7205759403792794 / 2 ^ 56"
    by (simp add: tenth_def)
  ultimately show ?thesis
    by (simp only:)
qed

text \<open>
  C6, as stated, fails: the dataset of three records with the value 0.1 is non-empty and
  uniform, and its average exceeds its maximum.
\<close>

theorem average_above_maximum:
  "calculateStats jscMaxArgs binary64 threeTenths =
     Inr (Some [statsWithin binary64 [Some (Fin tenth), Some (Fin tenth), Some (Fin tenth)]]) \<and>
   statsOf jscMaxArgs binary64 [Some (Fin tenth), Some (Fin tenth), Some (Fin tenth)] =
     Inr (statsWithin binary64 [Some (Fin tenth), Some (Fin tenth), Some (Fin tenth)]) \<and>
   avg (statsWithin binary64 [Some (Fin tenth), Some (Fin tenth), Some (Fin tenth)]) =
     Fin (7205759403792795 / 2 ^ 56) \<and>
   max' (statsWithin binary64 [Some (Fin tenth), Some (Fin tenth), Some (Fin tenth)]) =
     Fin (7205759403792794 / 2 ^ 56) \<and>
   \<not> js_le (avg (statsWithin binary64 [Some (Fin tenth), Some (Fin tenth), Some (Fin tenth)]))
            (max' (statsWithin binary64 [Some (Fin tenth), Some (Fin tenth), Some (Fin tenth)]))"
proof -
  have "length threeTenths \<le> max 1 jscMaxArgs"
    by (simp add: threeTenths_def jscMaxArgs_def)
  then have "calculateStats jscMaxArgs binary64 threeTenths =
      Inr (Some [statsWithin binary64 (column threeTenths 0)])"
    by (simp add: threeTenths_def calculateStats_first)
  moreover have "statsOf jscMaxArgs binary64 [Some (Fin tenth), Some (Fin tenth), Some (Fin tenth)] =
      Inr (statsWithin binary64 [Some (Fin tenth), Some (Fin tenth), Some (Fin tenth)])"
    by (rule statsOf_within) (simp add: jscMaxArgs_def)
  ultimately show ?thesis
    by (simp add: column_threeTenths avg_threeTenths max_threeTenths js_le_def)
qed

text \<open>
  With infinite values the average is \<open>NaN\<close> under every rounding, and no comparison
  with it holds.
\<close>

lemma calculateStats_oppositeInfinities:
  "2 \<le> maxArgs \<Longrightarrow>
   calculateStats maxArgs fl oppositeInfinities =
     Inr (Some [\<lparr>avg = NaN, min' = NegInfinity, max' = Infinity, stdDev = NaN\<rparr>])"
  by (simp add: oppositeInfinities_def calculateStats_def column_def arrayGet_def statsOf_def
      spread_def Let_def Math_min_def Math_max_def js_sub_def numeral_2_eq_2)

text \<open>
  C6, amended. For a non-empty dataset whose records all have \<open>D\<close> values and a dimension
  \<open>i\<close> whose values are finite, the statistics are computed when the records are no more
  than the engine accepts as arguments of a call, and whenever they are computed the
  minimum is at most the maximum under every rounding. The minimum is at most the average
  and the average at most the maximum in exact arithmetic, and under the rounding of the
  runtime when the values are binary64 values and their sum is computed without a
  rounding error.
\<close>

theorem average_between_extremes:
  assumes "data \<noteq> []" and "\<forall>d\<in>set data. length (values' d) = D" and "i < D"
    and "\<forall>d\<in>set data. isFinite (values' d ! i)"
  shows "(length data \<le> max 1 maxArgs \<longrightarrow>
            (\<exists>stats. calculateStats maxArgs fl data = Inr (Some stats))) \<and>
         (\<forall>stats. calculateStats maxArgs fl data = Inr (Some stats) \<longrightarrow>
           js_le (min' (stats ! i)) (max' (stats ! i)) \<and>
           (fl = exact \<or>
            fl = binary64 \<and> (\<forall>x\<in>set (realColumn data i). binary64 x = Fin x) \<and>
              columnSum binary64 (valuesAt data i) = Fin (sum_list (realColumn data i)) \<longrightarrow>
              js_le (min' (stats ! i)) (avg (stats ! i)) \<and>
              js_le (avg (stats ! i)) (max' (stats ! i))))"
proof (rule conjI)
  show "length data \<le> max 1 maxArgs \<longrightarrow>
          (\<exists>stats. calculateStats maxArgs fl data = Inr (Some stats))"
    by (simp add: calculateStats_uniform_within [OF assms(1,2)])
next
  show "\<forall>stats. calculateStats maxArgs fl data = Inr (Some stats) \<longrightarrow>
           js_le (min' (stats ! i)) (max' (stats ! i)) \<and>
           (fl = exact \<or>
            fl = binary64 \<and> (\<forall>x\<in>set (realColumn data i). binary64 x = Fin x) \<and>
              columnSum binary64 (valuesAt data i) = Fin (sum_list (realColumn data i)) \<longrightarrow>
              js_le (min' (stats ! i)) (avg (stats ! i)) \<and>
              js_le (avg (stats ! i)) (max' (stats ! i)))"
  proof (rule allI, rule impI)
  fix stats
  assume "calculateStats maxArgs fl data = Inr (Some stats)"
  with assms(1,2) have stats_def:
    "stats = map (\<lambda>i. statsWithin fl (map (\<lambda>d. Some (values' d ! i)) data)) [0..<D]"
    by (rule calculateStats_uniform_returned)
  let ?rs = "realColumn data i"
  have col: "valuesAt data i = map Fin ?rs"
    using assms(4) by (intro valuesAt_finite) (simp add: valuesAt_def)
  have nth: "stats ! i = statsWithin fl (map Some (map Fin ?rs))"
    unfolding stats_def using assms(3) by (simp add: finite_column [OF assms(4)] comp_def)
  have nonempty: "?rs \<noteq> []"
    using assms(1) by (simp add: realColumn_def)
  then have between: "Min (set ?rs) \<le> mean ?rs" "mean ?rs \<le> Max (set ?rs)"
    by (rule mean_between)+
  have lo: "min' (stats ! i) = Fin (Min (set ?rs))" and hi: "max' (stats ! i) = Fin (Max (set ?rs))"
    unfolding nth statsWithin_defined using nonempty by (simp_all add: Math_min_finite Math_max_finite)
  have extremes: "js_le (min' (stats ! i)) (max' (stats ! i))"
    using between by (simp add: lo hi js_le_def not_less)
  have in_exact: "js_le (min' (stats ! i)) (avg (stats ! i)) \<and> js_le (avg (stats ! i)) (max' (stats ! i))"
    if "fl = exact"
  proof -
    have "avg (stats ! i) = Fin (mean ?rs)"
      using statsWithin_exact_column [OF assms(1,4)] assms(3) that by (simp add: stats_def)
    with between show ?thesis
      by (simp add: lo hi js_le_def not_less)
  qed
  have in_binary64: "js_le (min' (stats ! i)) (avg (stats ! i)) \<and> js_le (avg (stats ! i)) (max' (stats ! i))"
    if "fl = binary64" and fixed: "\<forall>x\<in>set ?rs. binary64 x = Fin x"
      and sum: "columnSum binary64 (valuesAt data i) = Fin (sum_list ?rs)"
  proof -
    have "avg (stats ! i) = js_div binary64 (columnSum binary64 (map Fin ?rs)) (count (map Fin ?rs))"
      unfolding nth statsWithin_defined that(1) by simp
    also have "\<dots> = js_div binary64 (Fin (sum_list ?rs)) (Fin (real (length ?rs)))"
      using sum by (simp add: col count_def)
    also have "\<dots> = binary64 (mean ?rs)"
      using nonempty by (simp add: mean_def)
    finally have average: "avg (stats ! i) = binary64 (mean ?rs)" .
    have "Min (set ?rs) \<in> set ?rs" and "Max (set ?rs) \<in> set ?rs"
      using nonempty by simp_all
    with fixed have "binary64 (Min (set ?rs)) = Fin (Min (set ?rs))"
      and "binary64 (Max (set ?rs)) = Fin (Max (set ?rs))"
      by blast+
    with between show ?thesis
      unfolding lo hi average by (simp add: binary64_not_below binary64_not_above)
  qed
  from extremes in_exact in_binary64
  show "js_le (min' (stats ! i)) (max' (stats ! i)) \<and>
           (fl = exact \<or>
            fl = binary64 \<and> (\<forall>x\<in>set (realColumn data i). binary64 x = Fin x) \<and>
              columnSum binary64 (valuesAt data i) = Fin (sum_list (realColumn data i)) \<longrightarrow>
              js_le (min' (stats ! i)) (avg (stats ! i)) \<and>
              js_le (avg (stats ! i)) (max' (stats ! i)))"
    by blast
  qed
qed

theorem average_between_extremes_witness:
  "\<exists>stats. calculateStats jscMaxArgs binary64 twoByTwo = Inr (Some stats) \<and>
     js_le (min' (stats ! 1)) (max' (stats ! 1)) \<and>
     js_le (min' (stats ! 1)) (avg (stats ! 1)) \<and> js_le (avg (stats ! 1)) (max' (stats ! 1))"
proof -
  note small = binary64_of_int [of 2, simplified] binary64_of_int [of 4, simplified]
    binary64_of_int [of 6, simplified]
  have hyps: "twoByTwo \<noteq> []" "\<forall>d\<in>set twoByTwo. length (values' d) = 2" "(1::nat) < 2"
    "\<forall>d\<in>set twoByTwo. isFinite (values' d ! 1)"
    by (simp_all add: twoByTwo_def)
  have within: "length twoByTwo \<le> max 1 jscMaxArgs"
    by (simp add: twoByTwo_def jscMaxArgs_def)
  have sum: "\<forall>x\<in>set (realColumn twoByTwo 1). binary64 x = Fin x"
    "columnSum binary64 (valuesAt twoByTwo 1) = Fin (sum_list (realColumn twoByTwo 1))"
    by (simp_all add: realColumn_def valuesAt_def columnSum_def twoByTwo_def small)
  from average_between_extremes [OF hyps, of jscMaxArgs binary64] within
  obtain stats where returned: "calculateStats jscMaxArgs binary64 twoByTwo = Inr (Some stats)"
    by blast
  with average_between_extremes [OF hyps, of jscMaxArgs binary64] sum
  have "js_le (min' (stats ! 1)) (max' (stats ! 1)) \<and>
     js_le (min' (stats ! 1)) (avg (stats ! 1)) \<and> js_le (avg (stats ! 1)) (max' (stats ! 1))"
    by blast
  with returned show ?thesis
    by blast
qed

section \<open>A single record\<close>

text \<open>
  C7, as stated, fails: for one record holding an infinity the deviation from the average
  is \<open>Infinity - Infinity\<close>, and the standard deviation is \<open>NaN\<close>.
\<close>

theorem single_record_stdDev_NaN:
  "calculateStats jscMaxArgs binary64 oneInfinity =
     Inr (Some [\<lparr>avg = Infinity, min' = Infinity, max' = Infinity, stdDev = NaN\<rparr>]) \<and>
   stdDev \<lparr>avg = Infinity, min' = Infinity, max' = Infinity, stdDev = NaN\<rparr> \<noteq> Fin 0"
  by (simp add: oneInfinity_def calculateStats_def column_def arrayGet_def statsOf_def spread_def
      Let_def Math_min_def Math_max_def js_sub_def numeral_2_eq_2)

lemma statsWithin_single:
  assumes "fl 0 = Fin 0" and "fl x = Fin x"
  shows "stdDev (statsWithin fl [Some (Fin x)]) = Fin 0"
  using assms by (simp add: statsWithin_def Let_def js_sub_def Math_pow_2)

text \<open>
  C7, amended. For a dataset of exactly one record whose values are finite numbers, which
  the rounding leaves as they are, as it leaves zero, the standard deviation of every
  dimension is 0.
\<close>

theorem single_record_stdDev:
  assumes "fl 0 = Fin 0" and "\<forall>v\<in>set (values' d). isFinite v \<and> fl (realOf v) = v"
  shows "\<exists>stats. calculateStats maxArgs fl [d] = Inr (Some stats) \<and>
           length stats = length (values' d) \<and>
           (\<forall>i<length stats. stdDev (stats ! i) = Fin 0)"
proof -
  have "stdDev (statsWithin fl (map (\<lambda>d. Some (values' d ! i)) [d])) = Fin 0"
    if "i < length (values' d)" for i
  proof -
    from that assms(2) have "isFinite (values' d ! i)" and "fl (realOf (values' d ! i)) = values' d ! i"
      by simp_all
    then obtain x where "values' d ! i = Fin x" and "fl x = Fin x"
      by (cases "values' d ! i") simp_all
    with assms(1) show ?thesis
      by (simp add: statsWithin_single)
  qed
  then show ?thesis
    by (simp add: calculateStats_uniform_within [of "[d]" "length (values' d)"])
qed

theorem single_record_stdDev_witness:
  "\<exists>stats. calculateStats jscMaxArgs binary64 [\<lparr>label = ''a'', values' = [Fin 1, Fin tenth]\<rparr>] =
       Inr (Some stats) \<and>
     length stats = 2 \<and> stdDev (stats ! 0) = Fin 0 \<and> stdDev (stats ! 1) = Fin 0"
  using single_record_stdDev
    [of binary64 "\<lparr>label = ''a'', values' = [Fin 1, Fin tenth]\<rparr>" jscMaxArgs]
  by (auto simp: binary64_zero binary64_one binary64_tenth numeral_2_eq_2)

section \<open>The chart data\<close>

lemma chartData_Cons:
  "chartData (d0 # rest) =
     \<lparr>labels = map label (d0 # rest),
      datasets = map (series (d0 # rest)) [0..<length (values' d0)]\<rparr>"
  by (simp add: chartData_def)

lemma series_label: "label' (series data i) = ''Input '' @ toString (i + 1)"
  by (simp add: series_def)

lemma series_data: "data' (series data i) = column data i"
  by (simp add: series_def column_def)

lemma zip_labels:
  "zip (map label data) (map (\<lambda>d. Some (values' d ! i)) data) =
     map (\<lambda>d. (label d, Some (values' d ! i))) data"
  by (induction data) simp_all

text \<open>
  C8. For a non-empty dataset whose records all have \<open>D\<close> values, the chart data has
  the labels of the records in their order and \<open>D\<close> series; series \<open>i\<close> is named
  after \<open>i + 1\<close> and holds the value at index \<open>i\<close> of every record, so that paired with
  the labels it lists each record's label with its value, in the order of the dataset.
\<close>

theorem chartData_series:
  assumes "data \<noteq> []" and "\<forall>d\<in>set data. length (values' d) = D"
  shows "length (datasets (chartData data)) = D \<and>
         labels (chartData data) = map label data \<and>
         (\<forall>i<D. label' (datasets (chartData data) ! i) = ''Input '' @ toString (i + 1) \<and>
                 data' (datasets (chartData data) ! i) = map (\<lambda>d. Some (values' d ! i)) data \<and>
                 zip (labels (chartData data)) (data' (datasets (chartData data) ! i)) =
                   map (\<lambda>d. (label d, Some (values' d ! i))) data)"
proof -
  from assms(1) obtain d0 rest where data: "data = d0 # rest"
    by (cases data) auto
  with assms(2) have len0: "length (values' d0) = D"
    by simp
  have cd: "chartData data = \<lparr>labels = map label data, datasets = map (series data) [0..<D]\<rparr>"
    using chartData_Cons [of d0 rest] data len0 by simp
  show ?thesis
    by (simp add: cd series_label series_data column_uniform [OF assms(2)] zip_labels)
qed

theorem chartData_series_witness:
  "length (datasets (chartData twoByTwo)) = 2 \<and>
   labels (chartData twoByTwo) = [''a'', ''b''] \<and>
   data' (datasets (chartData twoByTwo) ! 0) = [Some (Fin 1), Some (Fin 3)] \<and>
   data' (datasets (chartData twoByTwo) ! 1) = [Some (Fin 2), Some (Fin 4)] \<and>
   zip (labels (chartData twoByTwo)) (data' (datasets (chartData twoByTwo) ! 1)) =
     [(''a'', Some (Fin 2)), (''b'', Some (Fin 4))]"
  using chartData_series [of twoByTwo 2]
  by (simp add: twoByTwo_def)

lemma series_length: "length (data' (series data i)) = length data"
  by (simp add: series_def)

text \<open>
  C10. For the empty dataset the chart data has no labels and, through the fallback to
  the empty array, no series. \<open>chartData\<close> has no failing branch: for every dataset,
  also one with records of unequal length, it returns the labels of the records and one
  series for each value of the first record, each series with one entry for each record.
\<close>

theorem chartData_total:
  "chartData [] = \<lparr>labels = [], datasets = []\<rparr> \<and>
   labels (chartData data) = map label data \<and>
   length (datasets (chartData data)) = (case data of [] \<Rightarrow> 0 | d0 # _ \<Rightarrow> length (values' d0)) \<and>
   (\<forall>s\<in>set (datasets (chartData data)). length (data' s) = length data)"
  by (cases data) (auto simp: chartData_def series_length)

theorem chartData_total_witness:
  "chartData [] = \<lparr>labels = [], datasets = []\<rparr> \<and>
   labels (chartData ragged) = [''a'', ''b''] \<and>
   length (datasets (chartData ragged)) = 2 \<and>
   map (\<lambda>s. length (data' s)) (datasets (chartData ragged)) = [2, 2]"
  using chartData_total [of ragged]
  by (simp add: ragged_def chartData_def)

section \<open>Records of unequal length\<close>

text \<open>
  The reads of \<open>calculateStats\<close> stay inside the arrays exactly when no record is
  shorter than the first.
\<close>

lemma reads_in_bounds_iff:
  "(\<forall>i<length (values' d0). None \<notin> set (column (d0 # rest) i)) \<longleftrightarrow>
   (\<forall>d\<in>set rest. length (values' d0) \<le> length (values' d))"
proof
  assume inb: "\<forall>i<length (values' d0). None \<notin> set (column (d0 # rest) i)"
  show "\<forall>d\<in>set rest. length (values' d0) \<le> length (values' d)"
  proof (rule ballI, rule ccontr)
    fix d assume d: "d \<in> set rest" and "\<not> length (values' d0) \<le> length (values' d)"
    then have short: "length (values' d) < length (values' d0)"
      by simp
    have "arrayGet (values' d) (length (values' d)) \<in> set (column (d0 # rest) (length (values' d)))"
      using d by (simp add: column_def)
    then have "None \<in> set (column (d0 # rest) (length (values' d)))"
      by (simp add: arrayGet_def)
    with inb short show False
      by blast
  qed
next
  assume "\<forall>d\<in>set rest. length (values' d0) \<le> length (values' d)"
  then show "\<forall>i<length (values' d0). None \<notin> set (column (d0 # rest) i)"
    by (auto simp: column_def arrayGet_def)
qed

text \<open>
  C9, as stated, fails in its last part: equal lengths are not necessary for reads in
  bounds. With a second record longer than the first the lengths differ, the dimension
  count is that of the first record, and the only column holds no \<^verbatim>\<open>undefined\<close>.
\<close>

theorem longer_record_read_in_bounds:
  "map (\<lambda>d. length (values' d)) longerLater = [1, 2] \<and>
   column longerLater 0 = [Some (Fin 1), Some (Fin 1)] \<and>
   calculateStats jscMaxArgs binary64 longerLater =
     Inr (Some [\<lparr>avg = Fin 1, min' = Fin 1, max' = Fin 1, stdDev = Fin 0\<rparr>])"
proof -
  note small = binary64_of_int [of 0, simplified] binary64_of_int [of 1, simplified]
    binary64_of_int [of 2, simplified]
  show ?thesis
    by (simp add: longerLater_def calculateStats_def column_def arrayGet_def statsOf_def
        spread_def jscMaxArgs_def Let_def Math_min_def Math_max_def js_sub_def Math_pow_2 small)
qed

text \<open>
  C9, amended. The dimension count is that of the first record. All reads of
  \<open>calculateStats\<close> are in bounds exactly when no record after the first is shorter
  than the first; equal lengths are sufficient for that, not necessary. For a record
  after the first that is shorter than the first, the read at the index of its length is
  out of bounds: it gives \<^verbatim>\<open>undefined\<close>, which is in the column of that dimension,
  and when the records are no more than the engine accepts as arguments of a call,
  \<open>calculateStats\<close> returns one statistic for each value of the first record, the one
  of that dimension computed from this column.
\<close>

theorem shorter_record_read_out_of_bounds:
  assumes "data = d0 # rest"
  shows "((\<forall>i<length (values' d0). None \<notin> set (column data i)) \<longleftrightarrow>
          (\<forall>d\<in>set rest. length (values' d0) \<le> length (values' d))) \<and>
         (\<forall>d\<in>set rest. length (values' d) < length (values' d0) \<longrightarrow>
            arrayGet (values' d) (length (values' d)) = None \<and>
            None \<in> set (column data (length (values' d))) \<and>
            (length data \<le> max 1 maxArgs \<longrightarrow>
               (\<exists>stats. calculateStats maxArgs fl data = Inr (Some stats) \<and>
                  length stats = length (values' d0) \<and>
                  statsOf maxArgs fl (column data (length (values' d))) =
                    Inr (stats ! length (values' d)))))"
proof (intro conjI ballI impI)
  show "(\<forall>i<length (values' d0). None \<notin> set (column data i)) \<longleftrightarrow>
        (\<forall>d\<in>set rest. length (values' d0) \<le> length (values' d))"
    unfolding assms by (rule reads_in_bounds_iff)
next
  fix d assume d: "d \<in> set rest" and short: "length (values' d) < length (values' d0)"
  let ?i = "length (values' d)"
  show none: "arrayGet (values' d) ?i = None"
    by (simp add: arrayGet_def)
  have "arrayGet (values' d) ?i \<in> set (column data ?i)"
    using assms d by (simp add: column_def)
  with none show "None \<in> set (column data ?i)"
    by simp
  assume within: "length data \<le> max 1 maxArgs"
  let ?stats = "map (\<lambda>index. statsWithin fl (column data index)) [0..<length (values' d0)]"
  have "calculateStats maxArgs fl data = Inr (Some ?stats)"
    using within unfolding assms by (simp add: calculateStats_first)
  moreover have "statsOf maxArgs fl (column data ?i) = Inr (?stats ! ?i)"
    using within short by (simp add: statsOf_within length_column)
  ultimately show "\<exists>stats. calculateStats maxArgs fl data = Inr (Some stats) \<and>
      length stats = length (values' d0) \<and>
      statsOf maxArgs fl (column data ?i) = Inr (stats ! ?i)"
    by (intro exI [of _ ?stats]) simp
qed

theorem shorter_record_read_out_of_bounds_witness:
  "\<exists>stats. calculateStats jscMaxArgs binary64 ragged = Inr (Some stats) \<and> length stats = 2 \<and>
     arrayGet [Fin 3] 1 = None \<and> column ragged 1 = [Some (Fin 2), None] \<and>
     statsOf jscMaxArgs binary64 (column ragged 1) = Inr (stats ! 1)"
proof -
  let ?b = "\<lparr>label = ''b'', values' = [Fin 3]\<rparr>"
  have data: "ragged = \<lparr>label = ''a'', values' = [Fin 1, Fin 2]\<rparr> # [?b]"
    by (simp add: ragged_def)
  have within: "length ragged \<le> max 1 jscMaxArgs"
    by (simp add: ragged_def jscMaxArgs_def)
  from shorter_record_read_out_of_bounds [OF data, of jscMaxArgs binary64] within
  have "\<exists>stats. calculateStats jscMaxArgs binary64 ragged = Inr (Some stats) \<and>
      length stats = 2 \<and> statsOf jscMaxArgs binary64 (column ragged 1) = Inr (stats ! 1)"
    by (simp add: numeral_2_eq_2)
  moreover have "arrayGet [Fin 3] 1 = None" and "column ragged 1 = [Some (Fin 2), None]"
    by (simp_all add: arrayGet_def column_def ragged_def)
  ultimately show ?thesis
    by blast
qed

text \<open>
  The statistic computed from a column with such a read is \<open>NaN\<close> in every field.
\<close>

lemma foldl_NaN: "foldl (\<lambda>a b. js_add fl a (g b)) NaN vals = NaN"
  by (induction vals) simp_all

lemma js_add_NaN: "js_add fl a NaN = NaN"
  by (cases a) simp_all

lemma sum_with_NaN:
  "\<exists>v\<in>set vals. g v = NaN \<Longrightarrow> foldl (\<lambda>a b. js_add fl a (g b)) acc vals = NaN"
proof (induction vals arbitrary: acc)
  case Nil
  then show ?case by simp
next
  case (Cons v vals)
  show ?case
  proof (cases "g v = NaN")
    case True
    then show ?thesis
      by (simp add: js_add_NaN foldl_NaN)
  next
    case False
    with Cons show ?thesis
      by simp
  qed
qed

lemma min_from_NaN: "NaN \<in> set xs \<Longrightarrow> min_from lowest xs = NaN"
  by (induction xs arbitrary: lowest) auto

lemma max_from_NaN: "NaN \<in> set xs \<Longrightarrow> max_from highest xs = NaN"
  by (induction xs arbitrary: highest) auto

lemma statsWithin_with_undefined:
  assumes "None \<in> set vals"
  shows "statsWithin fl vals = \<lparr>avg = NaN, min' = NaN, max' = NaN, stdDev = NaN\<rparr>"
proof -
  from assms have sum: "foldl (\<lambda>a b. js_add fl a (toNumber b)) (Fin 0) vals = NaN"
    by (intro sum_with_NaN) (auto intro: bexI [of _ None])
  have "Math_pow fl (js_sub fl (toNumber None) m) 2 = NaN" for m
    by (simp add: js_sub_def numeral_2_eq_2)
  with assms have squares:
    "foldl (\<lambda>sum val. js_add fl sum (Math_pow fl (js_sub fl (toNumber val) m) 2)) (Fin 0) vals = NaN"
    for m
    by (intro sum_with_NaN) (auto intro: bexI [of _ None])
  from assms have "NaN \<in> set (map toNumber vals)"
    by (auto simp: image_iff intro: bexI [of _ None])
  then have "Math_min (map toNumber vals) = NaN" and "Math_max (map toNumber vals) = NaN"
    unfolding Math_min_def Math_max_def by (rule min_from_NaN max_from_NaN)+
  then show ?thesis
    by (simp add: statsWithin_def Let_def sum squares)
qed

section \<open>The summaries\<close>

lemma generateSummary_Some:
  "generateSummary toFixed (Some st) =
     Inr (map (\<lambda>(index, stat). summaryText toFixed stat index) (enumerate 0 st))"
  by (simp add: generateSummary_def)

lemma summary_nth:
  "i < length st \<Longrightarrow>
   map (\<lambda>(index, stat). summaryText toFixed stat index) (enumerate 0 st) ! i =
     summaryText toFixed (st ! i) i"
  by (simp add: nth_enumerate_eq)

lemma variation_texts_differ: "lowVariationText \<noteq> spreadOutText"
  by (simp add: lowVariationText_def spreadOutText_def)

text \<open>
  C4. For every list of statistics, \<open>generateSummary\<close> returns one paragraph for each
  statistic, and the sentence about the variation in paragraph \<open>i\<close> is the one about
  numbers close to each other if and only if the standard deviation of statistic \<open>i\<close>
  is below 1; otherwise it is the one about numbers spread out. So a standard deviation
  of 0.5 gives the first sentence and one of 2 the second.
\<close>

theorem generateSummary_variation:
  "\<exists>ss. generateSummary toFixed (Some st) = Inr ss \<and> length ss = length st \<and>
     (\<forall>i<length st.
        ss ! i = summaryHead toFixed (st ! i) i @
                 (if js_lt (stdDev (st ! i)) (Fin 1) then lowVariationText else spreadOutText) @
                 summaryTail toFixed (st ! i) \<and>
        (ss ! i = summaryHead toFixed (st ! i) i @ lowVariationText @ summaryTail toFixed (st ! i)
           \<longleftrightarrow> js_lt (stdDev (st ! i)) (Fin 1)) \<and>
        (ss ! i = summaryHead toFixed (st ! i) i @ spreadOutText @ summaryTail toFixed (st ! i)
           \<longleftrightarrow> \<not> js_lt (stdDev (st ! i)) (Fin 1)) \<and>
        (stdDev (st ! i) = Fin (1 / 2) \<longrightarrow>
           ss ! i = summaryHead toFixed (st ! i) i @ lowVariationText @ summaryTail toFixed (st ! i)) \<and>
        (stdDev (st ! i) = Fin 2 \<longrightarrow>
           ss ! i = summaryHead toFixed (st ! i) i @ spreadOutText @ summaryTail toFixed (st ! i)))"
proof -
  let ?ss = "map (\<lambda>(index, stat). summaryText toFixed stat index) (enumerate 0 st)"
  have "?ss ! i = summaryHead toFixed (st ! i) i @
                  (if js_lt (stdDev (st ! i)) (Fin 1) then lowVariationText else spreadOutText) @
                  summaryTail toFixed (st ! i)" if "i < length st" for i
  proof -
    from that have "?ss ! i = summaryText toFixed (st ! i) i"
      by (rule summary_nth)
    then show ?thesis
      by (simp only: summaryText_def Let_def)
  qed
  moreover have "js_lt (Fin (1 / 2)) (Fin 1)" and "\<not> js_lt (Fin 2) (Fin 1)"
    by simp_all
  ultimately have "\<forall>i<length st.
        ?ss ! i = summaryHead toFixed (st ! i) i @
                 (if js_lt (stdDev (st ! i)) (Fin 1) then lowVariationText else spreadOutText) @
                 summaryTail toFixed (st ! i) \<and>
        (?ss ! i = summaryHead toFixed (st ! i) i @ lowVariationText @ summaryTail toFixed (st ! i)
           \<longleftrightarrow> js_lt (stdDev (st ! i)) (Fin 1)) \<and>
        (?ss ! i = summaryHead toFixed (st ! i) i @ spreadOutText @ summaryTail toFixed (st ! i)
           \<longleftrightarrow> \<not> js_lt (stdDev (st ! i)) (Fin 1)) \<and>
        (stdDev (st ! i) = Fin (1 / 2) \<longrightarrow>
           ?ss ! i = summaryHead toFixed (st ! i) i @ lowVariationText @ summaryTail toFixed (st ! i)) \<and>
        (stdDev (st ! i) = Fin 2 \<longrightarrow>
           ?ss ! i = summaryHead toFixed (st ! i) i @ spreadOutText @ summaryTail toFixed (st ! i))"
    using variation_texts_differ by auto
  moreover have "length ?ss = length st"
    by simp
  ultimately show ?thesis
    unfolding generateSummary_Some by blast
qed

theorem generateSummary_variation_witness:
  "\<exists>ss. generateSummary hashes (Some [narrow, wide]) = Inr ss \<and> length ss = 2 \<and>
     ss ! 0 = summaryHead hashes narrow 0 @ lowVariationText @ summaryTail hashes narrow \<and>
     ss ! 1 = summaryHead hashes wide 1 @ spreadOutText @ summaryTail hashes wide"
proof -
  have narrow: "stdDev narrow = Fin (1 / 2)" and wide: "stdDev wide = Fin 2"
    by (simp_all add: narrow_def wide_def)
  from generateSummary_variation [of hashes "[narrow, wide]"]
  obtain ss where ss: "generateSummary hashes (Some [narrow, wide]) = Inr ss"
    and len: "length ss = length [narrow, wide]"
    and each: "\<forall>i<length [narrow, wide].
        (stdDev ([narrow, wide] ! i) = Fin (1 / 2) \<longrightarrow>
           ss ! i = summaryHead hashes ([narrow, wide] ! i) i @ lowVariationText @
                    summaryTail hashes ([narrow, wide] ! i)) \<and>
        (stdDev ([narrow, wide] ! i) = Fin 2 \<longrightarrow>
           ss ! i = summaryHead hashes ([narrow, wide] ! i) i @ spreadOutText @
                    summaryTail hashes ([narrow, wide] ! i))"
    by blast
  from each [rule_format, of 0] narrow
  have "ss ! 0 = summaryHead hashes narrow 0 @ lowVariationText @ summaryTail hashes narrow"
    by simp
  moreover from each [rule_format, of 1] wide
  have "ss ! 1 = summaryHead hashes wide 1 @ spreadOutText @ summaryTail hashes wide"
    by simp
  ultimately show ?thesis
    using ss len by simp
qed

end
